theory Spec2Isabelle
  imports Complex_Main "HOL-Library.Word"
begin

section \<open>Math/DualComplex.h\<close>

text \<open>
  \<^verbatim>\<open>DualComplex<T>\<close> derives from \<^verbatim>\<open>Dual<Complex<T>>\<close>. The template parameter
  \<^verbatim>\<open>T\<close> is a type variable here; the accessors \<^verbatim>\<open>real()\<close>, \<^verbatim>\<open>imaginary()\<close> and
  \<^verbatim>\<open>dual()\<close> are the record fields, prefixed with their class because \<open>real\<close> is
  taken twice in the source and once in HOL.
\<close>

record 'a Complex =
  Complex_real :: 'a
  Complex_imaginary :: 'a

record 'x Dual =
  Dual_real :: 'x
  Dual_dual :: 'x

type_synonym 'a DualComplex = "'a Complex Dual"

text \<open>
  Modelled from the spec: \<^verbatim>\<open>Complex<T>::conjugated()\<close> of Math/Complex.h, which is
  not among the sources. The complex conjugate keeps the real part and negates the
  imaginary one; the documentation of \<^verbatim>\<open>DualComplex::conjugated()\<close> spells the same
  out component by component.
\<close>

definition Complex_conjugated :: "'a::uminus Complex \<Rightarrow> 'a Complex" where
  "Complex_conjugated c =
     \<lparr>Complex_real = Complex_real c, Complex_imaginary = - Complex_imaginary c\<rparr>"

text \<open>
  Modelled from the spec: unary minus of \<^verbatim>\<open>Complex<T>\<close> (Math/Complex.h), negating
  both components; \<^verbatim>\<open>Dual::conjugated()\<close> needs it for its infinitesimal part.
\<close>

definition Complex_negated :: "'a::uminus Complex \<Rightarrow> 'a Complex" where
  "Complex_negated c =
     \<lparr>Complex_real = - Complex_real c, Complex_imaginary = - Complex_imaginary c\<rparr>"

text \<open>
  Modelled from the spec: \<^verbatim>\<open>Complex<T>::dot(a, b)\<close> and the one-argument
  \<^verbatim>\<open>dot()\<close> of Math/Complex.h: the dot product of the two numbers read as plane
  vectors, and of a number with itself.
\<close>

definition Complex_dot :: "'a::{plus,times} Complex \<Rightarrow> 'a Complex \<Rightarrow> 'a" where
  "Complex_dot a b =
     Complex_real a * Complex_real b + Complex_imaginary a * Complex_imaginary b"

definition Complex_dot_self :: "'a::{plus,times} Complex \<Rightarrow> 'a" where
  "Complex_dot_self a = Complex_dot a a"

text \<open>
  Modelled from the spec: \<^verbatim>\<open>Dual<Complex<T>>::conjugated()\<close> of Math/Dual.h: the
  dual conjugate keeps the real part and negates the infinitesimal part.
\<close>

definition Dual_conjugated :: "'a::uminus DualComplex \<Rightarrow> 'a DualComplex" where
  "Dual_conjugated c = \<lparr>Dual_real = Dual_real c, Dual_dual = Complex_negated (Dual_dual c)\<rparr>"

text \<open>The member functions of DualComplex.h, lines 69 to 108.\<close>

definition complexConjugated :: "'a::uminus DualComplex \<Rightarrow> 'a DualComplex" where
  "complexConjugated c =
     \<lparr>Dual_real = Complex_conjugated (Dual_real c),
      Dual_dual = Complex_conjugated (Dual_dual c)\<rparr>"

definition dualConjugated :: "'a::uminus DualComplex \<Rightarrow> 'a DualComplex" where
  "dualConjugated c = Dual_conjugated c"

definition conjugated :: "'a::uminus DualComplex \<Rightarrow> 'a DualComplex" where
  "conjugated c =
     \<lparr>Dual_real = Complex_conjugated (Dual_real c),
      Dual_dual = \<lparr>Complex_real = - Complex_real (Dual_dual c),
                   Complex_imaginary = Complex_imaginary (Dual_dual c)\<rparr>\<rparr>"

definition lengthSquared :: "'a::{plus,times,numeral} DualComplex \<Rightarrow> 'a Dual" where
  "lengthSquared c =
     \<lparr>Dual_real = Complex_dot_self (Dual_real c),
      Dual_dual = 2 * Complex_dot (Dual_real c) (Dual_dual c)\<rparr>"

section \<open>Text/TextRenderer.cpp: the collaborators\<close>

text \<open>
  \<^verbatim>\<open>std::uint32_t\<close>, \<^verbatim>\<open>GLuint\<close>, \<^verbatim>\<open>GLushort\<close> and \<^verbatim>\<open>GLubyte\<close> are words of 32, 16
  and 8 bits, so that every product and every narrowing conversion wraps as it does in
  the source; \<^verbatim>\<open>std::size_t\<close> is taken to hold every value that occurs (64 bits) and is
  a natural number. \<^verbatim>\<open>GLfloat\<close> is idealised as a real number: rounding, infinities
  and NaN are not part of the embedding.
\<close>

type_synonym u32 = "32 word"
type_synonym GLuint = "32 word"
type_synonym GLushort = "16 word"
type_synonym GLubyte = "8 word"
type_synonym GLfloat = real
type_synonym Vector2 = "GLfloat \<times> GLfloat"

definition sizeof_GLushort :: nat where
  "sizeof_GLushort = 2"

definition sizeof_GLuint :: nat where
  "sizeof_GLuint = 4"

text \<open>
  Modelled from the spec: the component-wise arithmetic of \<^verbatim>\<open>Vector2\<close> (Math/Vector2.h
  is not among the sources): sum, difference, and product and quotient by a scalar.
\<close>

definition Vector2_add :: "Vector2 \<Rightarrow> Vector2 \<Rightarrow> Vector2" where
  "Vector2_add a b = (fst a + fst b, snd a + snd b)"

definition Vector2_sub :: "Vector2 \<Rightarrow> Vector2 \<Rightarrow> Vector2" where
  "Vector2_sub a b = (fst a - fst b, snd a - snd b)"

definition Vector2_mul :: "Vector2 \<Rightarrow> GLfloat \<Rightarrow> Vector2" where
  "Vector2_mul a s = (fst a * s, snd a * s)"

definition Vector2_div :: "Vector2 \<Rightarrow> GLfloat \<Rightarrow> Vector2" where
  "Vector2_div a s = (fst a / s, snd a / s)"

text \<open>
  Modelled from the spec: \<^verbatim>\<open>Rectangle\<close>. The source assigns through
  \<^verbatim>\<open>bottomLeft()\<close> and \<^verbatim>\<open>topRight()\<close> (lines 314 and 316) and builds a rectangle from
  these two corners (line 171), so they are the stored fields; the other accessors
  derive from them. A default-constructed rectangle has both corners at the origin.
\<close>

record Rectangle =
  bottomLeft :: Vector2
  topRight :: Vector2

definition Rectangle_default :: Rectangle where
  "Rectangle_default = \<lparr>bottomLeft = (0, 0), topRight = (0, 0)\<rparr>"

definition Rectangle_fromSize :: "Vector2 \<Rightarrow> Vector2 \<Rightarrow> Rectangle" where
  "Rectangle_fromSize origin extent =
     \<lparr>bottomLeft = origin, topRight = Vector2_add origin extent\<rparr>"

definition Rectangle_size :: "Rectangle \<Rightarrow> Vector2" where
  "Rectangle_size r = Vector2_sub (topRight r) (bottomLeft r)"

definition Rectangle_left :: "Rectangle \<Rightarrow> GLfloat" where
  "Rectangle_left r = fst (bottomLeft r)"

definition Rectangle_bottom :: "Rectangle \<Rightarrow> GLfloat" where
  "Rectangle_bottom r = snd (bottomLeft r)"

definition Rectangle_right :: "Rectangle \<Rightarrow> GLfloat" where
  "Rectangle_right r = fst (topRight r)"

definition Rectangle_top :: "Rectangle \<Rightarrow> GLfloat" where
  "Rectangle_top r = snd (topRight r)"

definition topLeft :: "Rectangle \<Rightarrow> Vector2" where
  "topLeft r = (Rectangle_left r, Rectangle_top r)"

definition bottomRight :: "Rectangle \<Rightarrow> Vector2" where
  "bottomRight r = (Rectangle_right r, Rectangle_bottom r)"

text \<open>
  The shaping engine is outside the program. Its result is the buffer the constructor
  of \<^verbatim>\<open>TextLayouter\<close> reads: a glyph count (an \<^verbatim>\<open>unsigned int\<close>) and two arrays of that
  many entries, indexed from 0. A glyph position holds four \<^verbatim>\<open>int32_t\<close> values, read with \<open>sint\<close>.
\<close>

record hb_glyph_info_t =
  codepoint :: u32

record hb_glyph_position_t =
  x_advance :: "32 word"
  y_advance :: "32 word"
  x_offset :: "32 word"
  y_offset :: "32 word"

record hb_buffer_t =
  hb_buffer_get_length :: u32
  hb_buffer_get_glyph_infos :: "nat \<Rightarrow> hb_glyph_info_t"
  hb_buffer_get_glyph_positions :: "nat \<Rightarrow> hb_glyph_position_t"

text \<open>
  Modelled from the spec: \<^verbatim>\<open>Font\<close> (Text/Font.h is not among the sources), as far as
  the renderer uses it: \<^verbatim>\<open>size()\<close>, the atlas lookup \<^verbatim>\<open>operator[]\<close> giving the glyph's
  quad rectangle and texture-coordinate rectangle, and the shaping of a text with the
  font's HarfBuzz handle (left to right, Latin script, English).
\<close>

record Font =
  Font_size :: GLfloat
  Font_glyph :: "u32 \<Rightarrow> Rectangle \<times> Rectangle"
  Font_shape :: "string \<Rightarrow> hb_buffer_t"

section \<open>TextLayouter\<close>

record TextLayouter =
  layouter_font :: Font
  layouter_size :: GLfloat
  glyphInfo :: "nat \<Rightarrow> hb_glyph_info_t"
  glyphPositions :: "nat \<Rightarrow> hb_glyph_position_t"
  glyphCount :: u32

definition newTextLayouter :: "Font \<Rightarrow> GLfloat \<Rightarrow> string \<Rightarrow> TextLayouter" where
  "newTextLayouter font textSize text =
     (let buffer = Font_shape font text
      in \<lparr>layouter_font = font, layouter_size = textSize,
          glyphInfo = hb_buffer_get_glyph_infos buffer,
          glyphPositions = hb_buffer_get_glyph_positions buffer,
          glyphCount = hb_buffer_get_length buffer\<rparr>)"

definition renderGlyph :: "TextLayouter \<Rightarrow> Vector2 \<Rightarrow> nat \<Rightarrow> Rectangle \<times> Rectangle \<times> Vector2" where
  "renderGlyph l cursorPosition i =
     (let (texturePosition, textureCoordinates) =
            Font_glyph (layouter_font l) (codepoint (glyphInfo l i));
          offset = Vector2_div (of_int (sint (x_offset (glyphPositions l i))),
                                of_int (sint (y_offset (glyphPositions l i))))
                     (64 * Font_size (layouter_font l));
          advance = Vector2_div (of_int (sint (x_advance (glyphPositions l i))),
                                 of_int (sint (y_advance (glyphPositions l i))))
                      (64 * Font_size (layouter_font l));
          quadPosition = Rectangle_fromSize
            (Vector2_mul (Vector2_add (Vector2_add cursorPosition offset)
                            (Rectangle_left texturePosition, Rectangle_bottom texturePosition))
               (layouter_size l))
            (Vector2_mul (Rectangle_size texturePosition) (layouter_size l))
      in (quadPosition, textureCoordinates, advance))"

section \<open>createIndices\<close>

text \<open>
  One pass of the loop body of \<^verbatim>\<open>createIndices<T>\<close> for glyph \<open>i\<close>: the six
  assignments \<^verbatim>\<open>out[pos + k] = vertex + j\<close> in program order, each as the array position
  and the value stored. Both \<^verbatim>\<open>vertex\<close> and \<^verbatim>\<open>pos\<close> are declared \<^verbatim>\<open>const T\<close>: the
  32-bit products \<open>i*4\<close> and \<open>i*6\<close> are narrowed to \<open>T\<close>. A \<open>T\<close> narrower than
  \<^verbatim>\<open>int\<close> is promoted in \<^verbatim>\<open>pos + k\<close>, which then cannot wrap; for \<^verbatim>\<open>GLuint\<close> the sum
  stays unsigned and wraps. The stored value is converted back to \<open>T\<close>.
\<close>

definition subscript :: "'w::len word \<Rightarrow> nat \<Rightarrow> nat" where
  "subscript pos k =
     (if LENGTH('w) < 32 then unat pos + k else unat (pos + word_of_nat k))"

definition quadIndices :: "nat \<Rightarrow> (nat \<times> 'w::len word) list" where
  "quadIndices i =
     (let vertex = (ucast ((word_of_nat i :: u32) * 4) :: 'w word);
          pos = (ucast ((word_of_nat i :: u32) * 6) :: 'w word)
      in [(unat pos, vertex),
          (subscript pos 1, vertex + 1),
          (subscript pos 2, vertex + 2),
          (subscript pos 3, vertex + 1),
          (subscript pos 4, vertex + 3),
          (subscript pos 5, vertex + 2)])"

text \<open>
  The whole loop, \<^verbatim>\<open>for(i = 0; i != glyphCount; ++i)\<close>: the assignments of glyph 0,
  then of glyph 1, and so on (\<open>count\<close> is the parameter \<^verbatim>\<open>glyphCount\<close>).
\<close>

definition createIndices :: "u32 \<Rightarrow> (nat \<times> 'w::len word) list" where
  "createIndices count = concat (map quadIndices [0..<unat count])"

text \<open>
  Carrying assignments out on an array of known length. An assignment past the end of
  the array is a memory fault, \<open>None\<close>.
\<close>

fun assign :: "(nat \<times> 'c) list \<Rightarrow> 'c list \<Rightarrow> 'c list option" where
  "assign [] out = Some out"
| "assign ((p, v) # rest) out =
     (if p < length out then assign rest (out[p := v]) else None)"

text \<open>
  Memory that was allocated but not written holds no known value: a cell of a GPU buffer
  or of a \<^verbatim>\<open>new char[]\<close> block is \<open>None\<close> until it is assigned.
\<close>

definition written :: "(nat \<times> 'c) list \<Rightarrow> (nat \<times> 'c option) list" where
  "written stores = map (\<lambda>(p, v). (p, Some v)) stores"

section \<open>Vertices, index types and the mesh\<close>

text \<open>
  The template parameter \<^verbatim>\<open>dimensions\<close> is 2 or 3 (the two instantiations at the end
  of the file); \<^verbatim>\<open>point<2>\<close> embeds a vector as \<open>(x, y, 1)\<close> and \<^verbatim>\<open>point<3>\<close> as
  \<open>(x, y, 0, 1)\<close>, and \<^verbatim>\<open>xy()\<close> reads the first two components back.
\<close>

datatype Dimensions = Two | Three

datatype PointType =
  Point2D GLfloat GLfloat GLfloat
| Point3D GLfloat GLfloat GLfloat GLfloat

fun point :: "Dimensions \<Rightarrow> Vector2 \<Rightarrow> PointType" where
  "point Two vec = Point2D (fst vec) (snd vec) 1"
| "point Three vec = Point3D (fst vec) (snd vec) 0 1"

fun xy :: "PointType \<Rightarrow> Vector2" where
  "xy (Point2D a b w) = (a, b)"
| "xy (Point3D a b c w) = (a, b)"

record Vertex =
  position :: PointType
  texcoords :: Vector2

text \<open>
  Modelled from the spec: the mesh handle (Mesh.h is not among the sources), as the
  values its setters store: the primitive, the vertex and index counts, whether the
  interleaved vertex buffer is attached, and the arguments of \<^verbatim>\<open>setIndexBuffer\<close>
  (offset, index type, start, end). A default-constructed mesh has zero counts and no
  buffer.
\<close>

datatype Primitive = Triangles

datatype IndexType = UnsignedByte | UnsignedShort | UnsignedInt

record Mesh =
  primitive :: Primitive
  vertexCount :: u32
  indexCount :: u32
  interleavedVertexBuffer :: bool
  indexBufferSetup :: "(nat \<times> IndexType \<times> u32 \<times> u32) option"

definition Mesh_default :: Mesh where
  "Mesh_default =
     \<lparr>primitive = Triangles, vertexCount = 0, indexCount = 0,
      interleavedVertexBuffer = False, indexBufferSetup = None\<rparr>"

text \<open>
  The contents of an index buffer: an array of cells of the element type that
  \<^verbatim>\<open>createIndices<T>\<close> was instantiated with.
\<close>

datatype IndexData =
  UnsignedByteData "GLubyte option list"
| UnsignedShortData "GLushort option list"
| UnsignedIntData "GLuint option list"

text \<open>
  The width in bits of an index type and of the elements of index data, and the size of
  index data in bytes.
\<close>

definition indexWidth :: "IndexType \<Rightarrow> nat" where
  "indexWidth t = (case t of UnsignedByte \<Rightarrow> 8 | UnsignedShort \<Rightarrow> 16 | UnsignedInt \<Rightarrow> 32)"

definition elementWidth :: "IndexData \<Rightarrow> nat" where
  "elementWidth data =
     (case data of UnsignedByteData cells \<Rightarrow> LENGTH(8)
      | UnsignedShortData cells \<Rightarrow> LENGTH(16)
      | UnsignedIntData cells \<Rightarrow> LENGTH(32))"

definition IndexData_size :: "IndexData \<Rightarrow> nat" where
  "IndexData_size data =
     (case data of UnsignedByteData cells \<Rightarrow> length cells
      | UnsignedShortData cells \<Rightarrow> length cells * sizeof_GLushort
      | UnsignedIntData cells \<Rightarrow> length cells * sizeof_GLuint)"

text \<open>
  The cells of index data read as numbers: the value of a cell that was assigned, nothing
  for a cell that was not.
\<close>

definition indexValues :: "IndexData \<Rightarrow> nat option list" where
  "indexValues data =
     (case data of UnsignedByteData cells \<Rightarrow> map (map_option unat) cells
      | UnsignedShortData cells \<Rightarrow> map (map_option unat) cells
      | UnsignedIntData cells \<Rightarrow> map (map_option unat) cells)"

text \<open>
  The selection of the index type and of the size in bytes of the index data, written
  twice in the source with the same conditions and constants: lines 210 to 225 of the
  mesh-building \<^verbatim>\<open>render\<close> and lines 273 to 282 of \<^verbatim>\<open>reserve\<close>.
\<close>

definition selectIndexType :: "u32 \<Rightarrow> u32 \<Rightarrow> IndexType \<times> nat" where
  "selectIndexType vertices indices =
     (if vertices < 255 then (UnsignedByte, unat indices * sizeof_GLushort)
      else if vertices < 65535 then (UnsignedShort, unat indices * sizeof_GLushort)
      else (UnsignedInt, unat indices * sizeof_GLuint))"

text \<open>
  The instantiation of \<^verbatim>\<open>createIndices\<close> under the same conditions (lines 214, 219, 224
  and 289 to 294), run on a fresh block of \<open>indicesSize\<close> bytes: that many \<^verbatim>\<open>GLubyte\<close>
  cells, half as many \<^verbatim>\<open>GLushort\<close> cells, a quarter as many \<^verbatim>\<open>GLuint\<close> cells.
\<close>

definition fillIndices :: "u32 \<Rightarrow> nat \<Rightarrow> u32 \<Rightarrow> IndexData option" where
  "fillIndices vertices indicesSize count =
     (if vertices < 255 then
        map_option UnsignedByteData
          (assign (written (createIndices count)) (replicate indicesSize None))
      else if vertices < 65535 then
        map_option UnsignedShortData
          (assign (written (createIndices count))
             (replicate (indicesSize div sizeof_GLushort) None))
      else
        map_option UnsignedIntData
          (assign (written (createIndices count))
             (replicate (indicesSize div sizeof_GLuint) None)))"

section \<open>The static mesh builders\<close>

text \<open>
  The array-producing \<^verbatim>\<open>render\<close> (lines 129 to 174). The loop state is the cursor and
  the two vectors; each pass appends the four corners of the glyph's quad and moves the
  cursor by the advance.
\<close>

definition render_arrays_glyph ::
  "Dimensions \<Rightarrow> TextLayouter \<Rightarrow> nat \<Rightarrow> Vector2 \<times> PointType list \<times> Vector2 list
     \<Rightarrow> Vector2 \<times> PointType list \<times> Vector2 list" where
  "render_arrays_glyph d layouter i = (\<lambda>(cursorPosition, positions, coords).
     (let (quadPosition, textureCoordinates, advance) = renderGlyph layouter cursorPosition i
      in (Vector2_add cursorPosition advance,
          positions @ [point d (topLeft quadPosition), point d (bottomLeft quadPosition),
                       point d (topRight quadPosition), point d (bottomRight quadPosition)],
          coords @ [topLeft textureCoordinates, bottomLeft textureCoordinates,
                    topRight textureCoordinates, bottomRight textureCoordinates])))"

definition render_arrays ::
  "Dimensions \<Rightarrow> Font \<Rightarrow> GLfloat \<Rightarrow> string
     \<Rightarrow> (PointType list \<times> Vector2 list \<times> u32 list \<times> Rectangle) option" where
  "render_arrays d font textSize text =
     (let layouter = newTextLayouter font textSize text;
          (cursorPosition, positions, coords) =
             fold (render_arrays_glyph d layouter) [0..<unat (glyphCount layouter)]
               ((0, 0), [], [])
      in case assign (createIndices (glyphCount layouter))
                (replicate (unat (glyphCount layouter * 6)) 0) of
           None \<Rightarrow> None
         | Some indices \<Rightarrow>
             Some (positions, coords, indices,
                   if glyphCount layouter \<noteq> 0
                   then \<lparr>bottomLeft = xy (positions ! 1),
                         topRight = xy (positions ! (length positions - 2))\<rparr>
                   else Rectangle_default))"

text \<open>
  The mesh-building \<^verbatim>\<open>render\<close> (lines 176 to 243). Its result is what it leaves in the
  two buffers of the caller, the mesh and the rectangle.
\<close>

definition render_mesh_glyph ::
  "Dimensions \<Rightarrow> TextLayouter \<Rightarrow> nat \<Rightarrow> Vector2 \<times> Vertex list \<Rightarrow> Vector2 \<times> Vertex list" where
  "render_mesh_glyph d layouter i = (\<lambda>(cursorPosition, vertices).
     (let (quadPosition, textureCoordinates, advance) = renderGlyph layouter cursorPosition i
      in (Vector2_add cursorPosition advance,
          vertices @
            [\<lparr>position = point d (topLeft quadPosition),
               texcoords = topLeft textureCoordinates\<rparr>,
             \<lparr>position = point d (bottomLeft quadPosition),
               texcoords = bottomLeft textureCoordinates\<rparr>,
             \<lparr>position = point d (topRight quadPosition),
               texcoords = topRight textureCoordinates\<rparr>,
             \<lparr>position = point d (bottomRight quadPosition),
               texcoords = bottomRight textureCoordinates\<rparr>])))"

definition render_mesh ::
  "Dimensions \<Rightarrow> Font \<Rightarrow> GLfloat \<Rightarrow> string
     \<Rightarrow> (Vertex option list \<times> IndexData \<times> Mesh \<times> Rectangle) option" where
  "render_mesh d font textSize text =
     (let layouter = newTextLayouter font textSize text;
          vertices4 = glyphCount layouter * 4;
          indices6 = glyphCount layouter * 6;
          (cursorPosition, vertices) =
             fold (render_mesh_glyph d layouter) [0..<unat (glyphCount layouter)] ((0, 0), []);
          (indexType, indicesSize) = selectIndexType vertices4 indices6
      in case fillIndices vertices4 indicesSize (glyphCount layouter) of
           None \<Rightarrow> None
         | Some indices \<Rightarrow>
             Some (map Some vertices, indices,
                   Mesh_default\<lparr>primitive := Triangles, indexCount := indices6,
                     interleavedVertexBuffer := True,
                     indexBufferSetup := Some (0, indexType, 0, vertices4)\<rparr>,
                   if glyphCount layouter \<noteq> 0
                   then \<lparr>bottomLeft = xy (position (vertices ! 1)),
                         topRight = xy (position (vertices ! (length vertices - 2)))\<rparr>
                   else Rectangle_default))"

section \<open>The incremental renderer\<close>

record TextRenderer =
  renderer_font :: Font
  renderer_size :: GLfloat
  capacity :: u32
  vertexBuffer :: "Vertex option list"
  indexBuffer :: IndexData
  mesh :: Mesh
  rectangle :: Rectangle

text \<open>
  The constructor (lines 245 to 258): no capacity, empty buffers, a mesh of triangles
  with the vertex buffer attached, and a default rectangle.
\<close>

definition newTextRenderer :: "Font \<Rightarrow> GLfloat \<Rightarrow> TextRenderer" where
  "newTextRenderer font textSize =
     \<lparr>renderer_font = font, renderer_size = textSize, capacity = 0,
      vertexBuffer = [], indexBuffer = UnsignedByteData [],
      mesh = Mesh_default\<lparr>primitive := Triangles, interleavedVertexBuffer := True\<rparr>,
      rectangle = Rectangle_default\<rparr>"

text \<open>
  \<^verbatim>\<open>reserve\<close> (lines 260 to 296). The vertex buffer is reallocated without data, the
  index buffer is reallocated and prefilled through its mapping. \<open>None\<close> is a write of
  \<^verbatim>\<open>createIndices\<close> outside the mapped block. The usage hints have no effect on any
  value and are left out.
\<close>

definition reserve :: "u32 \<Rightarrow> TextRenderer \<Rightarrow> TextRenderer option" where
  "reserve count r =
     (let vertices4 = count * 4;
          indices6 = count * 6;
          (indexType, indicesSize) = selectIndexType vertices4 indices6
      in case fillIndices vertices4 indicesSize count of
           None \<Rightarrow> None
         | Some indices \<Rightarrow>
             Some (r\<lparr>capacity := count,
                      vertexBuffer := replicate (unat vertices4) None,
                      indexBuffer := indices,
                      mesh := (mesh r)\<lparr>vertexCount := 0, indexCount := 0,
                                indexBufferSetup := Some (0, indexType, 0, vertices4)\<rparr>\<rparr>))"

text \<open>
  Modelled from the spec: mapping a range of a GPU buffer for writing with the whole
  buffer invalidated, and unmapping it (Buffer.h is not among the sources). The mapped
  region starts at offset 0 and has \<open>n\<close> cells, none of them holding a known value; a
  range longer than the buffer cannot be mapped. After unmapping, the buffer holds the
  region followed by cells without a known value.
\<close>

definition Buffer_map :: "'c option list \<Rightarrow> nat \<Rightarrow> 'c option list option" where
  "Buffer_map buffer n = (if n \<le> length buffer then Some (replicate n None) else None)"

definition Buffer_unmap :: "'c option list \<Rightarrow> 'c option list \<Rightarrow> 'c option list" where
  "Buffer_unmap buffer region = region @ replicate (length buffer - length region) None"

text \<open>
  How a call of the member \<^verbatim>\<open>render\<close> ends: it returns with the new state; or the
  capacity assertion fails and the call returns at once (modelled from the spec:
  \<^verbatim>\<open>CORRADE_ASSERT\<close> is not among the sources; the failure ends the call, not the
  object), with the state it holds then; or a write leaves the mapped region.
\<close>

datatype 's outcome = Returned 's | AssertionFailed 's | MemoryFault

text \<open>One pass of the loop of lines 307 to 326, on the cursor, the rectangle and the
  mapped vertices.\<close>

definition render_glyph ::
  "Dimensions \<Rightarrow> TextLayouter \<Rightarrow> nat \<Rightarrow> Vector2 \<times> Rectangle \<times> Vertex option list
     \<Rightarrow> (Vector2 \<times> Rectangle \<times> Vertex option list) option" where
  "render_glyph d layouter i = (\<lambda>(cursorPosition, rect, vertices).
     (let (quadPosition, textureCoordinates, advance) = renderGlyph layouter cursorPosition i;
          rect' = (if i = 0 then rect\<lparr>bottomLeft := bottomLeft quadPosition\<rparr>
                   else if word_of_nat i = glyphCount layouter - 1
                   then rect\<lparr>topRight := topRight quadPosition\<rparr>
                   else rect);
          vertex = unat ((word_of_nat i :: u32) * 4)
      in map_option (\<lambda>vertices'. (Vector2_add cursorPosition advance, rect', vertices'))
           (assign (written
              [(vertex, \<lparr>position = point d (topLeft quadPosition),
                          texcoords = topLeft textureCoordinates\<rparr>),
               (vertex + 1, \<lparr>position = point d (bottomLeft quadPosition),
                              texcoords = bottomLeft textureCoordinates\<rparr>),
               (vertex + 2, \<lparr>position = point d (topRight quadPosition),
                              texcoords = topRight textureCoordinates\<rparr>),
               (vertex + 3, \<lparr>position = point d (bottomRight quadPosition),
                              texcoords = bottomRight textureCoordinates\<rparr>)])
              vertices)))"

fun render_loop ::
  "(nat \<Rightarrow> 's \<Rightarrow> 's option) \<Rightarrow> nat list \<Rightarrow> 's \<Rightarrow> 's option" where
  "render_loop body [] s = Some s"
| "render_loop body (i # rest) s =
     (case body i s of None \<Rightarrow> None | Some s' \<Rightarrow> render_loop body rest s')"

text \<open>The member \<^verbatim>\<open>render\<close> (lines 298 to 331).\<close>

definition render :: "Dimensions \<Rightarrow> string \<Rightarrow> TextRenderer \<Rightarrow> TextRenderer outcome" where
  "render d text r =
     (let layouter = newTextLayouter (renderer_font r) (renderer_size r) text
      in if \<not> glyphCount layouter \<le> capacity r then AssertionFailed r
         else
           case Buffer_map (vertexBuffer r) (unat (glyphCount layouter * 4)) of
             None \<Rightarrow> MemoryFault
           | Some mapped \<Rightarrow>
               (case render_loop (render_glyph d layouter) [0..<unat (glyphCount layouter)]
                       ((0, 0), rectangle r, mapped) of
                  None \<Rightarrow> MemoryFault
                | Some (cursorPosition, rect, vertices) \<Rightarrow>
                    Returned (r\<lparr>rectangle := rect,
                                vertexBuffer := Buffer_unmap (vertexBuffer r) vertices,
                                mesh := (mesh r)\<lparr>indexCount := glyphCount layouter * 6\<rparr>\<rparr>)))"

section \<open>Reference definitions\<close>

text \<open>
  The index pattern in the words of the specification: the six indices of quad \<open>i\<close> are
  0, 1, 2, 1, 3, 2, each offset by \<open>4 * i\<close>, and the index list of \<open>n\<close> glyphs is the
  patterns of the quads 0 to \<open>n - 1\<close> in order. The rest names what one layout pass
  computes for glyph \<open>i\<close>: its offset and advance (the shaper's values over 64 times the
  font size), the cursor before it (the advances of the glyphs before it, added one after
  the other to the zero vector), its quad and texture rectangle, and the corners of a
  rectangle in the order top-left, bottom-left, top-right, bottom-right.
\<close>

definition quadPattern :: "nat \<Rightarrow> nat list" where
  "quadPattern i = map (\<lambda>k. 4 * i + k) [0, 1, 2, 1, 3, 2]"


definition glyphAdvance :: "TextLayouter \<Rightarrow> nat \<Rightarrow> Vector2" where
  "glyphAdvance l i =
     Vector2_div (of_int (sint (x_advance (glyphPositions l i))),
                  of_int (sint (y_advance (glyphPositions l i))))
       (64 * Font_size (layouter_font l))"

definition cursorAt :: "TextLayouter \<Rightarrow> nat \<Rightarrow> Vector2" where
  "cursorAt l i = fold (\<lambda>j c. Vector2_add c (glyphAdvance l j)) [0..<i] (0, 0)"

definition glyphQuad :: "TextLayouter \<Rightarrow> nat \<Rightarrow> Rectangle" where
  "glyphQuad l i = fst (renderGlyph l (cursorAt l i) i)"

definition glyphTexture :: "TextLayouter \<Rightarrow> nat \<Rightarrow> Rectangle" where
  "glyphTexture l i = snd (Font_glyph (layouter_font l) (codepoint (glyphInfo l i)))"

definition quadCorners :: "Dimensions \<Rightarrow> Rectangle \<Rightarrow> PointType list" where
  "quadCorners d q =
     [point d (topLeft q), point d (bottomLeft q), point d (topRight q), point d (bottomRight q)]"

definition textureCorners :: "Rectangle \<Rightarrow> Vector2 list" where
  "textureCorners t = [topLeft t, bottomLeft t, topRight t, bottomRight t]"

definition indexPattern :: "nat \<Rightarrow> nat list" where
  "indexPattern n = concat (map quadPattern [0..<n])"

text \<open>
  The running rectangle of the member \<^verbatim>\<open>render\<close> after the first \<open>k\<close> glyphs of a
  layout pass that started with the rectangle \<open>rect\<close>, for a text of two glyphs or more
  once all of them are done: from the bottom-left corner of glyph 0 to the top-right
  corner of the last glyph.
\<close>

definition rectangleAfter :: "Rectangle \<Rightarrow> TextLayouter \<Rightarrow> nat \<Rightarrow> Rectangle" where
  "rectangleAfter rect l k =
     (if k = 0 then rect
      else if k = unat (glyphCount l) \<and> 2 \<le> k
      then \<lparr>bottomLeft = bottomLeft (glyphQuad l 0), topRight = topRight (glyphQuad l (k - 1))\<rparr>
      else rect\<lparr>bottomLeft := bottomLeft (glyphQuad l 0)\<rparr>)"

text \<open>
  The narrowest of the three unsigned widths that represents a number, in the words of
  the specification.
\<close>

definition narrowestWidth :: "nat \<Rightarrow> nat" where
  "narrowestWidth n = (if n < 2 ^ 8 then 8 else if n < 2 ^ 16 then 16 else 32)"

section \<open>A stub font\<close>

text \<open>
  The shaper stub of the specification's test list: one glyph per character, zero
  offsets, an advance of 64 units along x (one unit of length at font size 1), and the
  unit square for every glyph's quad and texture rectangle.
\<close>

definition unitSquare :: Rectangle where
  "unitSquare = \<lparr>bottomLeft = (0, 0), topRight = (1, 1)\<rparr>"

definition stubShape :: "string \<Rightarrow> hb_buffer_t" where
  "stubShape text =
     \<lparr>hb_buffer_get_length = word_of_nat (length text),
      hb_buffer_get_glyph_infos = (\<lambda>i. \<lparr>codepoint = 0\<rparr>),
      hb_buffer_get_glyph_positions =
        (\<lambda>i. \<lparr>x_advance = 64, y_advance = 0, x_offset = 0, y_offset = 0\<rparr>)\<rparr>"

definition stubFont :: Font where
  "stubFont =
     \<lparr>Font_size = 1, Font_glyph = (\<lambda>c. (unitSquare, unitSquare)), Font_shape = stubShape\<rparr>"

section \<open>Properties of the dual complex numbers\<close>

lemma Complex_conjugated_twice:
  "Complex_conjugated (Complex_conjugated (c :: 'a::group_add Complex)) = c"
  by (simp add: Complex_conjugated_def)

lemma Complex_negated_twice:
  "Complex_negated (Complex_negated (c :: 'a::group_add Complex)) = c"
  by (simp add: Complex_negated_def)

text \<open>
  C8. Both conjugations of a dual complex number are involutions: applying
  \<^verbatim>\<open>complexConjugated\<close> twice, or \<^verbatim>\<open>dualConjugated\<close> twice, gives the number back.
  The scalar type is any type whose negation is that of an additive group.
\<close>

theorem conjugations_involutive:
  fixes c :: "'a::group_add DualComplex"
  shows "complexConjugated (complexConjugated c) = c \<and> dualConjugated (dualConjugated c) = c"
  by (simp add: complexConjugated_def dualConjugated_def Dual_conjugated_def
      Complex_conjugated_twice Complex_negated_twice)

text \<open>
  C9. The squared length of a dual complex number is the dual number whose real part is
  the dot product of the real part with itself and whose infinitesimal part is twice the
  dot product of the real and the dual part; at the literal \<open>({1, 0}, {0, 0})\<close> it is
  \<open>{1, 0}\<close>.
\<close>

theorem lengthSquared_parts:
  fixes c :: "'a::comm_ring_1 DualComplex"
  shows "Dual_real (lengthSquared c) = Complex_dot (Dual_real c) (Dual_real c)
       \<and> Dual_dual (lengthSquared c) = 2 * Complex_dot (Dual_real c) (Dual_dual c)
       \<and> lengthSquared \<lparr>Dual_real = \<lparr>Complex_real = 1, Complex_imaginary = 0\<rparr>,
                         Dual_dual = \<lparr>Complex_real = 0, Complex_imaginary = 0\<rparr>\<rparr>
           = \<lparr>Dual_real = (1::'a), Dual_dual = 0\<rparr>"
  by (simp add: lengthSquared_def Complex_dot_self_def Complex_dot_def)

section \<open>Assignments, index patterns and the layout loop\<close>

lemma assign_length: "assign stores out = Some out' \<Longrightarrow> length out' = length out"
  by (induction stores out rule: assign.induct) (auto split: if_splits)

lemma assign_append:
  "assign (xs @ ys) out = (case assign xs out of None \<Rightarrow> None | Some out' \<Rightarrow> assign ys out')"
  by (induction xs out rule: assign.induct) auto

lemma assign_in_range:
  "(\<forall>s \<in> set stores. fst s < length out) \<Longrightarrow> \<exists>out'. assign stores out = Some out'"
  by (induction stores out rule: assign.induct) auto

lemma assign_Some_in_range:
  "assign stores out = Some out' \<Longrightarrow> s \<in> set stores \<Longrightarrow> fst s < length out"
  by (induction stores out rule: assign.induct) (auto split: if_splits)

lemma narrow_product:
  assumes "LENGTH('w::len) \<le> 32"
  shows "(ucast ((word_of_nat i :: u32) * word_of_nat k) :: 'w word) = word_of_nat (k * i)"
proof -
  have "(2::nat) ^ LENGTH('w) dvd 2 ^ 32"
    using assms by (rule le_imp_power_dvd)
  then have "(i * k) mod 2 ^ 32 mod 2 ^ LENGTH('w) = (i * k) mod 2 ^ LENGTH('w)"
    by (rule mod_mod_cancel)
  moreover have "(word_of_nat i :: u32) * word_of_nat k = word_of_nat (i * k)"
    by simp
  ultimately show ?thesis
    by (simp only: word_unat_eq_iff unsigned_ucast_eq unat_of_nat take_bit_eq_mod)
       (simp add: mult.commute)
qed

lemma quad_values:
  assumes "LENGTH('w::len) \<le> 32"
  shows "map snd (quadIndices i :: (nat \<times> 'w word) list) = map word_of_nat (quadPattern i)"
  using narrow_product [OF assms, of i 4]
  by (simp add: quadIndices_def quadPattern_def Let_def)

lemma quad_positions_bound:
  assumes "LENGTH('w::len) \<le> 32" "s \<in> set (quadIndices i :: (nat \<times> 'w word) list)"
  shows "fst s \<le> 6 * i + 5"
proof -
  have pos: "unat (word_of_nat (6 * i) :: 'w word) \<le> 6 * i"
    by (simp only: unat_of_nat mod_less_eq_dividend)
  have add: "unat ((word_of_nat (6 * i) :: 'w word) + word_of_nat k) \<le> 6 * i + k" for k
    by (metis of_nat_add unat_of_nat mod_less_eq_dividend)
  show ?thesis
    using assms(2) pos add [of 1] add [of 2] add [of 3] add [of 4] add [of 5]
      narrow_product [OF assms(1), of i 6]
    by (auto simp add: quadIndices_def Let_def subscript_def)
qed


lemma createIndices_positions:
  assumes "LENGTH('w::len) \<le> 32" "s \<in> set (createIndices count :: (nat \<times> 'w word) list)"
  shows "fst s < 6 * unat count"
proof -
  from assms(2) obtain i where "i < unat count" "s \<in> set (quadIndices i :: (nat \<times> 'w word) list)"
    by (auto simp add: createIndices_def)
  with quad_positions_bound [OF assms(1)] have "fst s \<le> 6 * i + 5" "i < unat count"
    by blast+
  then show ?thesis by arith
qed

lemma quadPattern_bound: "v \<in> set (quadPattern i) \<Longrightarrow> v \<le> 4 * i + 3"
  by (auto simp add: quadPattern_def)

lemma indexPattern_bound:
  assumes "v \<in> set (indexPattern n)"
  shows "v \<le> 4 * n - 1 \<and> v < 4 * n"
proof -
  from assms obtain i where "i < n" "v \<in> set (quadPattern i)"
    by (auto simp add: indexPattern_def)
  with quadPattern_bound have "v \<le> 4 * i + 3" "i < n" by blast+
  then show ?thesis by arith
qed

lemma length_quadPattern: "length (quadPattern i) = 6"
  by (simp add: quadPattern_def)

lemma length_indexPattern: "length (indexPattern n) = 6 * n"
  by (induction n) (simp_all add: indexPattern_def length_quadPattern)

lemma createIndices_values:
  "LENGTH('w::len) \<le> 32 \<Longrightarrow>
   map snd (createIndices count :: (nat \<times> 'w word) list)
     = map word_of_nat (indexPattern (unat count))"
  by (simp add: createIndices_def indexPattern_def map_concat quad_values comp_def)

lemma createIndices_exact:
  assumes "LENGTH('w::len) \<le> 32" "4 * unat count \<le> 2 ^ LENGTH('w)"
  shows "map (unat \<circ> snd) (createIndices count :: (nat \<times> 'w word) list)
           = indexPattern (unat count)"
proof -
  have "unat (word_of_nat v :: 'w word) = v" if "v \<in> set (indexPattern (unat count))" for v
  proof -
    from indexPattern_bound [OF that] assms(2) have "v < 2 ^ LENGTH('w)" by arith
    then show ?thesis by (simp add: unat_of_nat)
  qed
  then have "map unat (map word_of_nat (indexPattern (unat count)) :: 'w word list)
               = indexPattern (unat count)"
    by (simp add: map_idI)
  then show ?thesis
    using createIndices_values [OF assms(1), of count] by (metis map_map)
qed

lemma assign_block:
  "length xs = n \<Longrightarrow> length vs \<le> length ys \<Longrightarrow>
   assign (zip [n..<n + length vs] vs) (xs @ ys) = Some (xs @ vs @ drop (length vs) ys)"
proof (induction vs arbitrary: xs n ys)
  case Nil
  then show ?case by simp
next
  case (Cons v vs)
  then obtain y ys' where ys: "ys = y # ys'" by (cases ys) auto
  have "n < n + length (v # vs)" by simp
  then have "[n..<n + length (v # vs)] = n # [Suc n..<n + length (v # vs)]"
    by (rule upt_conv_Cons)
  then have "[n..<n + length (v # vs)] = n # [Suc n..<Suc n + length vs]"
    by simp
  moreover have "(xs @ ys)[n := v] = (xs @ [v]) @ ys'"
    using Cons.prems(1) ys by (simp add: list_update_append)
  moreover have "assign (zip [Suc n..<Suc n + length vs] vs) ((xs @ [v]) @ ys')
      = Some ((xs @ [v]) @ vs @ drop (length vs) ys')"
    using Cons.prems ys by (intro Cons.IH) auto
  ultimately show ?case
    using Cons.prems(1) ys by simp
qed

lemma quadIndices_u32:
  assumes "6 * i + 5 < 2 ^ 32"
  shows "(quadIndices i :: (nat \<times> u32) list)
           = zip [6 * i..<6 * i + 6] (map word_of_nat (quadPattern i))"
proof -
  have p0: "unat ((word_of_nat (6 * i) :: u32) + word_of_nat k) = 6 * i + k" if "k \<le> 5" for k
  proof -
    have "6 * i + k < 2 ^ 32" using assms that by arith
    then have "(6 * i + k) mod 2 ^ LENGTH(32) = 6 * i + k" by simp
    then show ?thesis by (simp only: unat_of_nat flip: of_nat_add)
  qed
  have p: "unat ((word_of_nat i :: u32) * 6 + word_of_nat k) = 6 * i + k" if "k \<le> 5" for k
    using p0 [OF that] by (simp add: mult.commute)
  have upt: "[6 * i..<6 * i + 6] = [6 * i, 6 * i + 1, 6 * i + 2, 6 * i + 3, 6 * i + 4, 6 * i + 5]"
    by (simp add: upt_rec [of "6 * i"] upt_rec [of "Suc (6 * i)"] upt_rec [of "Suc (Suc (6 * i))"]
        upt_rec [of "Suc (Suc (Suc (6 * i)))"] upt_rec [of "Suc (Suc (Suc (Suc (6 * i))))"]
        upt_rec [of "Suc (Suc (Suc (Suc (Suc (6 * i)))))"]
        upt_rec [of "Suc (Suc (Suc (Suc (Suc (Suc (6 * i))))))"])
  have vals: "map snd (quadIndices i :: (nat \<times> u32) list) = map word_of_nat (quadPattern i)"
    by (rule quad_values) simp
  have poss: "map fst (quadIndices i :: (nat \<times> u32) list) = [6 * i..<6 * i + 6]"
    using p [of 0] p [of 1] p [of 2] p [of 3] p [of 4] p [of 5]
      narrow_product [where 'w = 32, of i 6]
    by (simp add: upt quadIndices_def Let_def subscript_def)
  show ?thesis
    by (metis poss vals zip_map_fst_snd)
qed


lemma indexPattern_Suc: "indexPattern (Suc n) = indexPattern n @ quadPattern n"
  by (simp add: indexPattern_def)

lemma assign_createIndices_prefix:
  assumes "6 * n < 2 ^ 32"
  shows "k \<le> n \<Longrightarrow>
    assign (concat (map quadIndices [0..<k]) :: (nat \<times> u32) list) (replicate (6 * n) 0)
      = Some (map word_of_nat (indexPattern k) @ replicate (6 * (n - k)) 0)"
proof (induction k)
  case 0
  then show ?case by (simp add: indexPattern_def)
next
  case (Suc k)
  let ?xs = "map word_of_nat (indexPattern k) :: u32 list"
  let ?vs = "map word_of_nat (quadPattern k) :: u32 list"
  have small: "6 * k + 5 < 2 ^ 32" using Suc.prems assms by arith
  have len: "length ?xs = 6 * k" by (simp add: length_indexPattern)
  have room: "length ?vs \<le> length (replicate (6 * (n - k)) (0::u32))"
    using Suc.prems by (simp add: length_quadPattern)
  have "assign (zip [6 * k..<6 * k + length ?vs] ?vs) (?xs @ replicate (6 * (n - k)) 0)
          = Some (?xs @ ?vs @ drop (length ?vs) (replicate (6 * (n - k)) 0))"
    using len room by (rule assign_block)
  moreover have "drop (length ?vs) (replicate (6 * (n - k)) (0::u32)) = replicate (6 * (n - Suc k)) 0"
    by (simp add: length_quadPattern diff_mult_distrib2)
  ultimately have step: "assign (quadIndices k) (?xs @ replicate (6 * (n - k)) 0)
          = Some (?xs @ ?vs @ replicate (6 * (n - Suc k)) 0)"
    by (simp add: quadIndices_u32 [OF small] length_quadPattern)
  from Suc have "assign (concat (map quadIndices [0..<k]) :: (nat \<times> u32) list) (replicate (6 * n) 0)
      = Some (?xs @ replicate (6 * (n - k)) 0)" by simp
  then show ?case
    by (simp add: assign_append step indexPattern_Suc)
qed

lemma assign_createIndices_u32:
  assumes "6 * unat count < 2 ^ 32"
  shows "assign (createIndices count :: (nat \<times> u32) list) (replicate (6 * unat count) 0)
           = Some (map word_of_nat (indexPattern (unat count)))"
  using assign_createIndices_prefix [OF assms, of "unat count"]
  by (simp add: createIndices_def)

lemma unat_indexPattern_u32:
  assumes "6 * n < 2 ^ 32"
  shows "map unat (map word_of_nat (indexPattern n) :: u32 list) = indexPattern n"
proof -
  have "unat (word_of_nat v :: u32) = v" if "v \<in> set (indexPattern n)" for v
  proof -
    from indexPattern_bound [OF that] assms have "v < 2 ^ LENGTH(32)" by simp
    then show ?thesis by (simp only: unat_of_nat mod_less)
  qed
  then show ?thesis by (simp add: map_idI)
qed

lemma renderGlyph_advance: "snd (snd (renderGlyph l c i)) = glyphAdvance l i"
  by (simp add: renderGlyph_def glyphAdvance_def Let_def split_beta)

lemma renderGlyph_texture: "fst (snd (renderGlyph l c i)) = glyphTexture l i"
  by (simp add: renderGlyph_def glyphTexture_def Let_def split_beta)

lemma cursorAt_Suc: "cursorAt l (Suc n) = Vector2_add (cursorAt l n) (glyphAdvance l n)"
  by (simp add: cursorAt_def)

lemma render_arrays_loop:
  "fold (render_arrays_glyph d l) [0..<n] ((0, 0), [], [])
     = (cursorAt l n,
        concat (map (\<lambda>i. quadCorners d (glyphQuad l i)) [0..<n]),
        concat (map (\<lambda>i. textureCorners (glyphTexture l i)) [0..<n]))"
proof (induction n)
  case 0
  then show ?case by (simp add: cursorAt_def)
next
  case (Suc n)
  obtain q t a where g: "renderGlyph l (cursorAt l n) n = (q, t, a)"
    by (cases "renderGlyph l (cursorAt l n) n") auto
  from g have "q = glyphQuad l n" "t = glyphTexture l n" "a = glyphAdvance l n"
    using renderGlyph_advance [of l "cursorAt l n" n] renderGlyph_texture [of l "cursorAt l n" n]
    by (simp_all add: glyphQuad_def)
  with g Suc show ?case
    by (simp add: render_arrays_glyph_def cursorAt_Suc quadCorners_def textureCorners_def)
qed


lemma length_quads:
  "length (concat (map (\<lambda>i. quadCorners d (f i)) [0..<n])) = 4 * n"
  by (induction n) (simp_all add: quadCorners_def)

lemma length_textures:
  "length (concat (map (\<lambda>i. textureCorners (f i)) [0..<n])) = 4 * n"
  by (induction n) (simp_all add: textureCorners_def)

lemma xy_point: "xy (point d v) = v"
  by (cases d) simp_all

lemma quads_second:
  assumes "0 < n"
  shows "concat (map (\<lambda>i. quadCorners d (f i)) [0..<n]) ! Suc 0 = point d (bottomLeft (f 0))"
proof -
  have "[0..<n] = 0 # [Suc 0..<n]" using assms by (rule upt_conv_Cons)
  then show ?thesis by (simp add: quadCorners_def)
qed

lemma quads_second_to_last:
  assumes "0 < n"
  shows "concat (map (\<lambda>i. quadCorners d (f i)) [0..<n]) ! (4 * n - 2)
           = point d (topRight (f (n - 1)))"
proof -
  from assms obtain m where n: "n = Suc m" by (cases n) auto
  have "concat (map (\<lambda>i. quadCorners d (f i)) [0..<Suc m]) ! (4 * m + 2)
          = quadCorners d (f m) ! 2"
    by (simp add: nth_append length_quads)
  then show ?thesis by (simp add: n quadCorners_def)
qed

section \<open>reserve and the member render\<close>

lemma written_positions: "map fst (written stores) = map fst stores"
  by (induction stores) (auto simp add: written_def)

lemma written_fst:
  assumes "s \<in> set (written stores)"
  shows "\<exists>s' \<in> set stores. fst s = fst s'"
proof -
  from assms have "fst s \<in> set (map fst (written stores))" by simp
  then have "fst s \<in> set (map fst stores)" by (simp only: written_positions)
  then show ?thesis by auto
qed

lemma assign_written_createIndices:
  assumes "LENGTH('w::len) \<le> 32" "6 * unat count \<le> n"
  shows "\<exists>cells. assign (written (createIndices count :: (nat \<times> 'w word) list))
           (replicate n None) = Some cells \<and> length cells = n"
proof -
  have "\<forall>s \<in> set (written (createIndices count :: (nat \<times> 'w word) list)).
          fst s < length (replicate n (None :: 'w word option))"
  proof
    fix s assume "s \<in> set (written (createIndices count :: (nat \<times> 'w word) list))"
    then obtain s' where "s' \<in> set (createIndices count :: (nat \<times> 'w word) list)" "fst s = fst s'"
      using written_fst by blast
    with createIndices_positions [OF assms(1)] assms(2) show "fst s < length (replicate n (None :: 'w word option))"
      by fastforce
  qed
  then obtain cells where c: "assign (written (createIndices count :: (nat \<times> 'w word) list))
           (replicate n None) = Some cells"
    using assign_in_range by blast
  with assign_length [OF c] show ?thesis by simp
qed

lemma fillIndices_width:
  "fillIndices v sz count = Some data \<Longrightarrow>
     elementWidth data = indexWidth (fst (selectIndexType v n))"
  by (auto simp add: fillIndices_def selectIndexType_def elementWidth_def indexWidth_def
      split: if_splits)

lemma fillIndices_size:
  "fillIndices v (snd (selectIndexType v n)) count = Some data \<Longrightarrow>
     IndexData_size data = snd (selectIndexType v n)"
  by (auto simp add: fillIndices_def selectIndexType_def IndexData_size_def
      sizeof_GLushort_def sizeof_GLuint_def dest!: assign_length split: if_splits)

lemma fillIndices_returns:
  assumes "6 * unat count \<le> unat n"
  shows "\<exists>data. fillIndices v (snd (selectIndexType v n)) count = Some data"
proof -
  have a: "6 * unat count \<le> unat n * sizeof_GLushort"
    and b: "6 * unat count \<le> unat n * sizeof_GLushort div sizeof_GLushort"
    and c: "6 * unat count \<le> unat n * sizeof_GLuint div sizeof_GLuint"
    using assms by (simp_all add: sizeof_GLushort_def sizeof_GLuint_def)
  show ?thesis
    using assign_written_createIndices [where 'w = 8, OF _ a]
      assign_written_createIndices [where 'w = 16, OF _ b]
      assign_written_createIndices [where 'w = 32, OF _ c]
    by (auto simp add: fillIndices_def selectIndexType_def)
qed

lemma unat_times_6: "6 * unat (count :: u32) < 2 ^ 32 \<Longrightarrow> unat (count * 6) = 6 * unat count"
  by (simp add: unat_word_ariths)

lemma unat_times_4: "4 * unat (count :: u32) < 2 ^ 32 \<Longrightarrow> unat (count * 4) = 4 * unat count"
  by (simp add: unat_word_ariths)

lemma reserve_returns:
  assumes "6 * unat count < 2 ^ 32"
  shows "\<exists>r'. reserve count r = Some r'"
proof -
  have "6 * unat count \<le> unat (count * 6)" using unat_times_6 [OF assms] by simp
  from fillIndices_returns [OF this, of "count * 4"] show ?thesis
    by (auto simp add: reserve_def Let_def split_beta)
qed

lemma reserve_result:
  assumes "reserve count r = Some r'"
  shows "capacity r' = count \<and> vertexBuffer r' = replicate (unat (count * 4)) None
    \<and> elementWidth (indexBuffer r') = indexWidth (fst (selectIndexType (count * 4) (count * 6)))
    \<and> IndexData_size (indexBuffer r') = snd (selectIndexType (count * 4) (count * 6))
    \<and> mesh r' = (mesh r)\<lparr>vertexCount := 0, indexCount := 0,
         indexBufferSetup := Some (0, fst (selectIndexType (count * 4) (count * 6)), 0, count * 4)\<rparr>
    \<and> rectangle r' = rectangle r \<and> renderer_font r' = renderer_font r
    \<and> renderer_size r' = renderer_size r"
  using assms
  by (auto simp add: reserve_def Let_def split_beta fillIndices_width fillIndices_size
      split: option.splits)


lemma render_loop_invariant:
  assumes "P s" "\<And>i s. i \<in> set xs \<Longrightarrow> P s \<Longrightarrow> \<exists>s'. body i s = Some s' \<and> P s'"
  shows "\<exists>s'. render_loop body xs s = Some s' \<and> P s'"
  using assms
proof (induction xs arbitrary: s)
  case Nil
  then show ?case by simp
next
  case (Cons x xs)
  from Cons.prems obtain s1 where s1: "body x s = Some s1" "P s1" by fastforce
  from Cons.IH [OF s1(2)] Cons.prems(2) obtain s' where "render_loop body xs s1 = Some s'" "P s'"
    by fastforce
  with s1 show ?case by simp
qed

lemma render_glyph_in_range:
  assumes "4 * i + 3 < length vertices" "4 * i < 2 ^ 32"
  shows "\<exists>c' rect' vertices'.
           render_glyph d l i (c, rect, vertices) = Some (c', rect', vertices')
         \<and> length vertices' = length vertices"
proof -
  have v: "unat ((word_of_nat i :: u32) * 4) = 4 * i"
  proof -
    have "(4 * i) mod 2 ^ LENGTH(32) = 4 * i" using assms(2) by simp
    moreover have "(word_of_nat i :: u32) * 4 = word_of_nat (4 * i)" by simp
    ultimately show ?thesis by (simp only: unat_of_nat)
  qed
  show ?thesis
    using assms(1)
    by (simp add: render_glyph_def Let_def split_beta written_def v)
qed

lemma render_frame:
  assumes "render d text r = Returned r'"
  shows "indexBuffer r' = indexBuffer r \<and> capacity r' = capacity r
    \<and> renderer_font r' = renderer_font r \<and> renderer_size r' = renderer_size r
    \<and> mesh r' = (mesh r)\<lparr>indexCount :=
          glyphCount (newTextLayouter (renderer_font r) (renderer_size r) text) * 6\<rparr>"
  using assms
  by (auto simp add: render_def Let_def split: if_splits option.splits)

lemma render_returns:
  assumes cap: "glyphCount (newTextLayouter (renderer_font r) (renderer_size r) text) \<le> capacity r"
    and len: "length (vertexBuffer r) = 4 * unat (capacity r)"
    and small: "4 * unat (capacity r) < 2 ^ 32"
  shows "\<exists>r'. render d text r = Returned r'"
proof -
  let ?l = "newTextLayouter (renderer_font r) (renderer_size r) text"
  let ?n = "unat (glyphCount ?l)"
  have n: "?n \<le> unat (capacity r)" using cap by (simp add: word_le_nat_alt)
  then have four: "unat (glyphCount ?l * 4) = 4 * ?n"
    using small by (intro unat_times_4) arith
  have "\<exists>s'. render_loop (render_glyph d ?l) [0..<?n] ((0, 0), rectangle r, replicate (4 * ?n) None)
           = Some s' \<and> length (snd (snd s')) = 4 * ?n"
  proof (rule render_loop_invariant [where P = "\<lambda>s. length (snd (snd s)) = 4 * ?n"])
    show "length (snd (snd ((0, 0) :: Vector2, rectangle r,
            replicate (4 * ?n) (None :: Vertex option)))) = 4 * ?n" by simp
  next
    fix i and s :: "Vector2 \<times> Rectangle \<times> Vertex option list"
    assume i: "i \<in> set [0..<?n]" and s: "length (snd (snd s)) = 4 * ?n"
    obtain c rect vs where sv: "s = (c, rect, vs)" by (cases s) auto
    have "4 * i + 3 < length vs" "4 * i < 2 ^ 32"
      using i s sv n small by auto
    from render_glyph_in_range [OF this, of d ?l c rect]
    show "\<exists>s'. render_glyph d ?l i s = Some s' \<and> length (snd (snd s')) = 4 * ?n"
      using s sv by auto
  qed
  then obtain s' where "render_loop (render_glyph d ?l) [0..<?n]
      ((0, 0), rectangle r, replicate (4 * ?n) None) = Some s'" by blast
  moreover have "4 * ?n \<le> length (vertexBuffer r)" using n len by simp
  ultimately show ?thesis
    using cap by (simp add: render_def Let_def Buffer_map_def four split_beta)
qed

lemma render_no_glyphs:
  assumes "glyphCount (newTextLayouter (renderer_font r) (renderer_size r) text) = 0"
  shows "render d text r =
           Returned (r\<lparr>rectangle := rectangle r,
                       vertexBuffer := replicate (length (vertexBuffer r)) None,
                       mesh := (mesh r)\<lparr>indexCount := 0\<rparr>\<rparr>)"
  using assms by (simp add: render_def Let_def Buffer_map_def Buffer_unmap_def)

section \<open>The array-producing mesh builder\<close>

text \<open>
  C6. For a text that shapes to \<open>N\<close> glyphs, with \<open>6 * N\<close> below \<open>2 ^ 32\<close>, the
  array-producing \<^verbatim>\<open>render\<close> returns exactly \<open>4 * N\<close> positions and \<open>4 * N\<close> texture
  coordinates, the four corners of each glyph's quad in the order top-left, bottom-left,
  top-right, bottom-right; exactly \<open>6 * N\<close> 32-bit indices, those of quad \<open>i\<close> being
  0, 1, 2, 1, 3, 2 offset by \<open>4 * i\<close>; and the rectangle from the second position
  (the bottom-left corner of glyph 0) to the second-to-last position (the top-right corner
  of glyph \<open>N - 1\<close>). For \<open>N = 0\<close> the arrays are empty and the rectangle is the default
  one.
\<close>

theorem render_arrays_result:
  assumes l: "l = newTextLayouter font textSize text"
    and N: "N = unat (glyphCount l)"
    and bound: "6 * N < 2 ^ 32"
  shows "\<exists>positions coords indices rect.
      render_arrays d font textSize text = Some (positions, coords, indices, rect)
    \<and> length positions = 4 * N \<and> length coords = 4 * N \<and> length indices = 6 * N
    \<and> positions = concat (map (\<lambda>i. quadCorners d (glyphQuad l i)) [0..<N])
    \<and> coords = concat (map (\<lambda>i. textureCorners (glyphTexture l i)) [0..<N])
    \<and> map unat indices = indexPattern N
    \<and> (0 < N \<longrightarrow> rect = \<lparr>bottomLeft = xy (positions ! 1),
                                topRight = xy (positions ! (length positions - 2))\<rparr>
               \<and> rect = \<lparr>bottomLeft = bottomLeft (glyphQuad l 0),
                          topRight = topRight (glyphQuad l (N - 1))\<rparr>)
    \<and> (N = 0 \<longrightarrow> positions = [] \<and> coords = [] \<and> indices = [] \<and> rect = Rectangle_default)"
proof -
  let ?positions = "concat (map (\<lambda>i. quadCorners d (glyphQuad l i)) [0..<N])"
  let ?coords = "concat (map (\<lambda>i. textureCorners (glyphTexture l i)) [0..<N])"
  let ?indices = "map word_of_nat (indexPattern N) :: u32 list"
  let ?rect = "if glyphCount l \<noteq> 0
               then \<lparr>bottomLeft = xy (?positions ! 1),
                     topRight = xy (?positions ! (length ?positions - 2))\<rparr>
               else Rectangle_default"
  have six: "unat (glyphCount l * 6) = 6 * N"
    using bound by (simp add: N unat_word_ariths)
  have indices: "assign (createIndices (glyphCount l)) (replicate (unat (glyphCount l * 6)) 0)
                   = Some ?indices"
    using assign_createIndices_u32 [of "glyphCount l"] bound by (simp add: six N)
  have result: "render_arrays d font textSize text = Some (?positions, ?coords, ?indices, ?rect)"
    using indices by (simp add: render_arrays_def Let_def render_arrays_loop flip: l N)
  have zero: "glyphCount l \<noteq> 0 \<longleftrightarrow> 0 < N"
    by (simp add: N unat_gt_0)
  have pattern: "map unat ?indices = indexPattern N"
    using bound by (rule unat_indexPattern_u32)
  have corners: "0 < N \<Longrightarrow> ?rect = \<lparr>bottomLeft = bottomLeft (glyphQuad l 0),
                                       topRight = topRight (glyphQuad l (N - 1))\<rparr>"
    by (simp add: zero length_quads quads_second quads_second_to_last xy_point)
  have empty: "N = 0 \<Longrightarrow> ?positions = [] \<and> ?coords = [] \<and> ?indices = [] \<and> ?rect = Rectangle_default"
    by (simp add: zero indexPattern_def)
  show ?thesis
    apply (rule exI [of _ ?positions], rule exI [of _ ?coords],
        rule exI [of _ ?indices], rule exI [of _ ?rect])
    using result pattern corners empty
    by (simp add: length_quads length_textures length_indexPattern zero)
qed

section \<open>The stub font, evaluated\<close>

lemma stub_glyphCount:
  "glyphCount (newTextLayouter stubFont s text) = word_of_nat (length text)"
  by (simp add: newTextLayouter_def stubFont_def stubShape_def)

lemma stub_advance: "glyphAdvance (newTextLayouter stubFont s text) i = (1, 0)"
  by (simp add: glyphAdvance_def newTextLayouter_def stubFont_def stubShape_def Vector2_div_def)

lemma stub_renderGlyph:
  "renderGlyph (newTextLayouter stubFont s text) c i
     = (\<lparr>bottomLeft = (fst c * s, snd c * s), topRight = (fst c * s + s, snd c * s + s)\<rparr>,
        unitSquare, (1, 0))"
  by (simp add: renderGlyph_def newTextLayouter_def stubFont_def stubShape_def Vector2_div_def
      Vector2_add_def Vector2_mul_def Vector2_sub_def Rectangle_fromSize_def Rectangle_size_def
      Rectangle_left_def Rectangle_bottom_def unitSquare_def)

text \<open>
  A text of two glyphs in the stub font: twelve indices are far below \<open>2 ^ 32\<close>, and
  the result is the eight corners, the twelve indices and the rectangle from
  \<open>(0, 0)\<close> to \<open>(2, 1)\<close>.
\<close>

theorem render_arrays_result_witness:
  "6 * unat (glyphCount (newTextLayouter stubFont 1 ''ab'')) < 2 ^ 32
   \<and> (\<exists>positions coords indices rect.
      render_arrays Two stubFont 1 ''ab'' = Some (positions, coords, indices, rect)
    \<and> length positions = 8 \<and> length coords = 8 \<and> length indices = 12
    \<and> map unat indices = [0, 1, 2, 1, 3, 2, 4, 5, 6, 5, 7, 6]
    \<and> positions = [Point2D 0 1 1, Point2D 0 0 1, Point2D 1 1 1, Point2D 1 0 1,
                    Point2D 1 1 1, Point2D 1 0 1, Point2D 2 1 1, Point2D 2 0 1]
    \<and> rect = \<lparr>bottomLeft = (0, 0), topRight = (2, 1)\<rparr>)"
  using render_arrays_result [of "newTextLayouter stubFont 1 ''ab''" stubFont 1 "''ab''" 2 Two]
  apply (simp add: stub_glyphCount)
  apply (simp add: indexPattern_def quadPattern_def glyphQuad_def stub_renderGlyph cursorAt_def
      stub_advance quadCorners_def topLeft_def bottomRight_def Rectangle_left_def
      Rectangle_bottom_def Rectangle_right_def Rectangle_top_def Vector2_add_def
      upt_rec [of 0] upt_rec [of "Suc 0"] upt_rec [of 1] upt_rec [of 2])
  apply (elim exE conjE)
  apply simp
  done

text \<open>
  Past \<open>6 * N < 2 ^ 32\<close> the source computes the length of the index vector as the
  32-bit product \<^verbatim>\<open>glyphCount()*6\<close>, which wraps, while \<^verbatim>\<open>createIndices\<close> still runs
  over all glyphs. A text of 715827883 glyphs gets an index vector of 2 elements, and the
  third assignment of the first quad already lies outside it: the builder returns no
  arrays at all.
\<close>

lemma createIndices_first_quad:
  assumes "0 < unat count"
  shows "set (quadIndices 0 :: (nat \<times> 'w::len word) list) \<subseteq> set (createIndices count)"
  using assms by (auto simp add: createIndices_def)

lemma assign_createIndices_fault:
  assumes "0 < unat count" "n < 6"
  shows "assign (createIndices count :: (nat \<times> u32) list) (replicate n 0) = None"
proof (cases "assign (createIndices count :: (nat \<times> u32) list) (replicate n 0)")
  case None
  then show ?thesis .
next
  case (Some out)
  have "(5, 2) \<in> set (quadIndices 0 :: (nat \<times> u32) list)"
    by (simp add: quadIndices_def subscript_def)
  with createIndices_first_quad [OF assms(1)]
  have "(5, 2) \<in> set (createIndices count :: (nat \<times> u32) list)" by blast
  from assign_Some_in_range [OF Some this] assms(2) show ?thesis by simp
qed

theorem render_arrays_overflow:
  "render_arrays Two stubFont 1 (replicate 715827883 CHR ''a'') = None"
proof -
  let ?l = "newTextLayouter stubFont 1 (replicate 715827883 CHR ''a'')"
  have count: "glyphCount ?l = 715827883"
    by (simp add: stub_glyphCount)
  have "unat (glyphCount ?l * 6) = 2" "0 < unat (glyphCount ?l)"
    by (simp_all only: count) simp_all
  then have "assign (createIndices (glyphCount ?l) :: (nat \<times> u32) list)
               (replicate (unat (glyphCount ?l * 6)) 0) = None"
    by (intro assign_createIndices_fault) simp_all
  then show ?thesis
    by (simp only: render_arrays_def Let_def split_beta option.case)
qed

section \<open>The layout pass\<close>


section \<open>What createIndices writes, and where\<close>

lemma createIndices_value_bound:
  assumes "LENGTH('w::len) \<le> 32" "s \<in> set (createIndices count :: (nat \<times> 'w word) list)"
  shows "unat (snd s) \<le> 4 * unat count - 1 \<and> unat (snd s) < 4 * unat count"
proof -
  from assms(2) have "snd s \<in> set (map snd (createIndices count :: (nat \<times> 'w word) list))"
    by simp
  then obtain v where v: "v \<in> set (indexPattern (unat count))" "snd s = word_of_nat v"
    by (auto simp add: createIndices_values [OF assms(1)])
  have "unat (word_of_nat v :: 'w word) \<le> v"
    by (simp only: unat_of_nat mod_less_eq_dividend)
  with indexPattern_bound [OF v(1)] v(2) show ?thesis by simp
qed

lemma upt_six: "[n..<n + 6] = [n, n + 1, n + 2, n + 3, n + 4, n + 5]"
  by (simp add: upt_rec [of n] upt_rec [of "Suc n"] upt_rec [of "Suc (Suc n)"]
      upt_rec [of "Suc (Suc (Suc n))"] upt_rec [of "Suc (Suc (Suc (Suc n)))"]
      upt_rec [of "Suc (Suc (Suc (Suc (Suc n))))"]
      upt_rec [of "Suc (Suc (Suc (Suc (Suc (Suc n)))))"])

lemma quadIndices_narrow:
  assumes "LENGTH('w::len) < 32" "6 * i < 2 ^ LENGTH('w)"
  shows "(quadIndices i :: (nat \<times> 'w word) list)
           = zip [6 * i..<6 * i + 6] (map word_of_nat (quadPattern i))"
proof -
  have le: "LENGTH('w) \<le> 32" using assms(1) by simp
  have pos: "(ucast ((word_of_nat i :: u32) * 6) :: 'w word) = word_of_nat (6 * i)"
    using narrow_product [OF le, of i 6] by simp
  have u: "unat (word_of_nat (6 * i) :: 'w word) = 6 * i"
    using assms(2) by (simp only: unat_of_nat mod_less)
  have vals: "map snd (quadIndices i :: (nat \<times> 'w word) list) = map word_of_nat (quadPattern i)"
    using le by (rule quad_values)
  have poss: "map fst (quadIndices i :: (nat \<times> 'w word) list) = [6 * i..<6 * i + 6]"
    unfolding upt_six quadIndices_def Let_def subscript_def pos
    using assms(1) u by simp
  show ?thesis
    by (metis poss vals zip_map_fst_snd)
qed

lemma written_append: "written (xs @ ys) = written xs @ written ys"
  by (simp add: written_def)

lemma written_zip: "written (zip ps vs) = zip ps (map Some vs)"
  by (induction ps vs rule: list_induct2') (simp_all add: written_def)

lemma assign_written_prefix:
  assumes exact: "\<And>i. i < g \<Longrightarrow> (quadIndices i :: (nat \<times> 'w::len word) list)
                     = zip [6 * i..<6 * i + 6] (map word_of_nat (quadPattern i))"
    and room: "6 * g \<le> n"
  shows "k \<le> g \<Longrightarrow>
    assign (written (concat (map quadIndices [0..<k]) :: (nat \<times> 'w word) list))
        (replicate n None)
      = Some (map (Some \<circ> word_of_nat) (indexPattern k) @ replicate (n - 6 * k) None)"
proof (induction k)
  case 0
  then show ?case by (simp add: indexPattern_def written_def)
next
  case (Suc k)
  let ?xs = "map (Some \<circ> word_of_nat) (indexPattern k) :: 'w word option list"
  let ?vs = "map Some (map word_of_nat (quadPattern k)) :: 'w word option list"
  have k: "k < g" using Suc.prems by simp
  have len: "length ?xs = 6 * k" by (simp add: length_indexPattern)
  have room': "length ?vs \<le> length (replicate (n - 6 * k) (None :: 'w word option))"
    using k room by (simp add: length_quadPattern)
  have "assign (zip [6 * k..<6 * k + length ?vs] ?vs) (?xs @ replicate (n - 6 * k) None)
          = Some (?xs @ ?vs @ drop (length ?vs) (replicate (n - 6 * k) None))"
    using len room' by (rule assign_block)
  moreover have "drop (length ?vs) (replicate (n - 6 * k) (None :: 'w word option))
                   = replicate (n - 6 * Suc k) None"
    by (simp add: length_quadPattern)
  ultimately have step: "assign (written (quadIndices k :: (nat \<times> 'w word) list))
                           (?xs @ replicate (n - 6 * k) None)
          = Some (?xs @ ?vs @ replicate (n - 6 * Suc k) None)"
    by (simp add: exact [OF k] written_zip length_quadPattern)
  from Suc k have "assign (written (concat (map quadIndices [0..<k]) :: (nat \<times> 'w word) list))
        (replicate n None) = Some (?xs @ replicate (n - 6 * k) None)" by simp
  then show ?case
    by (simp add: written_append assign_append step indexPattern_Suc)
qed

lemma assign_written_createIndices_exact:
  assumes exact: "\<And>i. i < unat count \<Longrightarrow> (quadIndices i :: (nat \<times> 'w::len word) list)
                     = zip [6 * i..<6 * i + 6] (map word_of_nat (quadPattern i))"
    and room: "6 * unat count \<le> n"
  shows "assign (written (createIndices count :: (nat \<times> 'w word) list)) (replicate n None)
      = Some (map (Some \<circ> word_of_nat) (indexPattern (unat count))
              @ replicate (n - 6 * unat count) None)"
  unfolding createIndices_def
  using exact room by (rule assign_written_prefix) simp_all

lemma unat_pattern:
  assumes "4 * g \<le> 2 ^ LENGTH('w::len)"
  shows "map (map_option unat) (map (Some \<circ> word_of_nat) (indexPattern g) :: 'w word option list)
           = map Some (indexPattern g)"
proof -
  have "unat (word_of_nat v :: 'w word) = v" if "v \<in> set (indexPattern g)" for v
  proof -
    from indexPattern_bound [OF that] assms have "v < 2 ^ LENGTH('w)" by arith
    then show ?thesis by (simp only: unat_of_nat mod_less)
  qed
  then show ?thesis by simp
qed

lemma fillIndices_prefilled:
  assumes six: "6 * unat count < 2 ^ 32"
    and byte: "count * 4 < 255 \<longrightarrow> unat count \<le> 43"
    and short: "count * 4 < 65535 \<longrightarrow> unat count \<le> 10923"
  shows "\<exists>data. fillIndices (count * 4) (snd (selectIndexType (count * 4) (count * 6))) count
                 = Some data
           \<and> take (6 * unat count) (indexValues data) = map Some (indexPattern (unat count))"
proof -
  let ?g = "unat count"
  have six': "unat (count * 6) = 6 * ?g" using six by (rule unat_times_6)
  have "4 * ?g < 2 ^ 32" using six by simp
  then have four: "unat (count * 4) = 4 * ?g" by (rule unat_times_4)
  have tk: "take (6 * ?g) (xs @ ys) = xs" if "length xs = 6 * ?g" for xs ys :: "nat option list"
    using that by simp
  consider (b) "count * 4 < 255" | (s) "\<not> count * 4 < 255" "count * 4 < 65535"
    | (i) "\<not> count * 4 < 255" "\<not> count * 4 < 65535" by blast
  then show ?thesis
  proof cases
    case b
    with byte have g: "?g \<le> 43" by simp
    have ex: "(quadIndices i :: (nat \<times> GLubyte) list)
        = zip [6 * i..<6 * i + 6] (map word_of_nat (quadPattern i))" if "i < ?g" for i
      using that g by (intro quadIndices_narrow) simp_all
    have v: "4 * ?g \<le> 2 ^ LENGTH(8)" using g by simp
    have "assign (written (createIndices count :: (nat \<times> GLubyte) list))
            (replicate (6 * ?g * 2) None)
          = Some (map (Some \<circ> word_of_nat) (indexPattern ?g) @ replicate (6 * ?g * 2 - 6 * ?g) None)"
      using ex by (rule assign_written_createIndices_exact) simp_all
    then show ?thesis
      using b unat_pattern [OF v]
      by (simp add: fillIndices_def selectIndexType_def sizeof_GLushort_def six' indexValues_def
          length_indexPattern)
  next
    case s
    with short have g: "?g \<le> 10923" by simp
    have ex: "(quadIndices i :: (nat \<times> GLushort) list)
        = zip [6 * i..<6 * i + 6] (map word_of_nat (quadPattern i))" if "i < ?g" for i
      using that g by (intro quadIndices_narrow) simp_all
    have v: "4 * ?g \<le> 2 ^ LENGTH(16)" using g by simp
    have "assign (written (createIndices count :: (nat \<times> GLushort) list))
            (replicate (6 * ?g) None)
          = Some (map (Some \<circ> word_of_nat) (indexPattern ?g) @ replicate (6 * ?g - 6 * ?g) None)"
      using ex by (rule assign_written_createIndices_exact) simp_all
    then show ?thesis
      using s unat_pattern [OF v]
      by (simp add: fillIndices_def selectIndexType_def sizeof_GLushort_def six' indexValues_def
          length_indexPattern)
  next
    case i
    have ex: "(quadIndices j :: (nat \<times> GLuint) list)
        = zip [6 * j..<6 * j + 6] (map word_of_nat (quadPattern j))" if "j < ?g" for j
      using that six by (intro quadIndices_u32) arith
    have v: "4 * ?g \<le> 2 ^ LENGTH(32)" using six by simp
    have "assign (written (createIndices count :: (nat \<times> GLuint) list))
            (replicate (6 * ?g) None)
          = Some (map (Some \<circ> word_of_nat) (indexPattern ?g) @ replicate (6 * ?g - 6 * ?g) None)"
      using ex by (rule assign_written_createIndices_exact) simp_all
    then show ?thesis
      using i unat_pattern [OF v]
      by (simp add: fillIndices_def selectIndexType_def sizeof_GLuint_def six' indexValues_def
          length_indexPattern)
  qed
qed

lemma reserve_prefilled:
  assumes "6 * unat count < 2 ^ 32"
    and "count * 4 < 255 \<longrightarrow> unat count \<le> 43"
    and "count * 4 < 65535 \<longrightarrow> unat count \<le> 10923"
  shows "\<exists>r'. reserve count r = Some r'
           \<and> take (6 * unat count) (indexValues (indexBuffer r'))
               = map Some (indexPattern (unat count))"
  using fillIndices_prefilled [OF assms]
  by (auto simp add: reserve_def Let_def split_beta)

text \<open>
  The array position is narrowed like the value: \<^verbatim>\<open>pos\<close> is declared \<^verbatim>\<open>const T\<close> as
  well (line 102), and \<open>i * 6\<close> outgrows eight bits from glyph 43 on, while the 8-bit
  instantiation is used up to 63 glyphs. The assignments of glyph 43 land on the
  positions 2 to 7 instead of 258 to 263: after \<^verbatim>\<open>reserve(44)\<close> the cell 2 of the index
  buffer holds 172 and the cell 258 was never written.
\<close>

lemma createIndices_byte_position_wraps:
  "(quadIndices 43 :: (nat \<times> GLubyte) list)
     = [(2, 172), (3, 173), (4, 174), (5, 173), (6, 175), (7, 174)]"
  by (simp add: quadIndices_def subscript_def)

lemma reserve_44_cells:
  "map_option (\<lambda>r'. (indexValues (indexBuffer r') ! 2, indexValues (indexBuffer r') ! 258))
     (reserve 44 (newTextRenderer stubFont 1)) = Some (Some 172, None)"
proof -
  let ?B = "map (Some \<circ> word_of_nat) (indexPattern 43) @ replicate (528 - 6 * 43) None
              :: GLubyte option list"
  have ex: "(quadIndices i :: (nat \<times> GLubyte) list)
      = zip [6 * i..<6 * i + 6] (map word_of_nat (quadPattern i))" if "i < 43" for i
    using that by (intro quadIndices_narrow) simp_all
  have first: "assign (written (concat (map quadIndices [0..<43]) :: (nat \<times> GLubyte) list))
      (replicate 528 None) = Some ?B"
  proof (rule assign_written_prefix [where g = 43])
    show "6 * 43 \<le> (528 :: nat)" by simp
    show "(43 :: nat) \<le> 43" by simp
  qed (rule ex)
  have len: "length ?B = 528" by (simp add: length_indexPattern)
  have last: "assign (written (quadIndices 43 :: (nat \<times> GLubyte) list)) ?B
      = Some (?B[2 := Some 172, 3 := Some 173, 4 := Some 174, 5 := Some 173,
                 6 := Some 175, 7 := Some 174])"
    unfolding createIndices_byte_position_wraps written_def
    using len by simp
  have split: "[0..<unat (44 :: u32)] = [0..<43] @ [43]"
    by (simp add: upt_Suc_append [of 0 43, simplified])
  have all: "assign (written (createIndices 44 :: (nat \<times> GLubyte) list)) (replicate 528 None)
      = Some (?B[2 := Some 172, 3 := Some 173, 4 := Some 174, 5 := Some 173,
                 6 := Some 175, 7 := Some 174])"
    unfolding createIndices_def split
    by (simp only: map_append concat_append written_append assign_append first option.case
        list.map concat.simps append_Nil2 last)
  have c258: "?B ! 258 = None"
    by (simp add: nth_append length_indexPattern)
  have fill: "fillIndices (44 * 4) (snd (selectIndexType (44 * 4) (44 * 6))) 44
      = Some (UnsignedByteData (?B[2 := Some 172, 3 := Some 173, 4 := Some 174, 5 := Some 173,
                 6 := Some 175, 7 := Some 174]))"
    using all by (simp add: fillIndices_def selectIndexType_def sizeof_GLushort_def)
  have cells: "indexValues (UnsignedByteData (?B[2 := Some 172, 3 := Some 173, 4 := Some 174,
                 5 := Some 173, 6 := Some 175, 7 := Some 174])) ! 2 = Some 172
     \<and> indexValues (UnsignedByteData (?B[2 := Some 172, 3 := Some 173, 4 := Some 174,
                 5 := Some 173, 6 := Some 175, 7 := Some 174])) ! 258 = None"
    using len c258 by (simp add: indexValues_def)
  show ?thesis
    using fill cells by (simp add: reserve_def Let_def split_beta)
qed

text \<open>
  Two inputs at which the claim fails. For a single glyph the fifth assignment stores the
  index 3, the last vertex of the quad, which is above \<open>4 * 1 - 2\<close>. For 44 glyphs the
  vertex count 176 is below 255, so the 8-bit instantiation runs, and the conversion of
  the position \<open>43 * 6 = 258\<close> to \<^verbatim>\<open>GLubyte\<close> truncates to 2: among the first
  \<open>6 * 44\<close> cells of the prefilled buffer the cell 258 holds no index at all, and the
  cell 2 holds an index of glyph 43.
\<close>

theorem createIndices_claim_fails:
  "(4, 3) \<in> set (createIndices 1 :: (nat \<times> GLuint) list)
   \<and> \<not> unat (3 :: GLuint) \<le> 4 * unat (1 :: u32) - 2
   \<and> (44 :: u32) * 4 < 255
   \<and> (quadIndices 43 :: (nat \<times> GLubyte) list)
        = [(2, 172), (3, 173), (4, 174), (5, 173), (6, 175), (7, 174)]
   \<and> map_option (\<lambda>r'. (indexValues (indexBuffer r') ! 2, indexValues (indexBuffer r') ! 258))
        (reserve 44 (newTextRenderer stubFont 1)) = Some (Some 172, None)"
  using reserve_44_cells createIndices_byte_position_wraps
  by (simp add: createIndices_def quadIndices_def subscript_def)

text \<open>
  C10. For every glyph count \<open>g > 0\<close> with \<open>4 * g\<close> below \<open>2 ^ 32\<close>, every index
  value written by \<^verbatim>\<open>createIndices<T>\<close>, for each of the three element types, is at most
  \<open>4 * g - 1\<close> and so below the vertex count \<open>4 * g\<close>; under the condition that guards
  the instantiation (vertex count below 255 for \<^verbatim>\<open>GLubyte\<close>, below 65535 for
  \<^verbatim>\<open>GLushort\<close>) the values stored, read back as numbers, are exactly the index pattern:
  narrowing an index value to \<open>T\<close> loses nothing. When the array position \<open>i * 6\<close> fits
  \<open>T\<close> as well for every glyph (at most 43 glyphs under the 8-bit condition, at most
  10923 under the 16-bit condition, \<open>6 * g\<close> below \<open>2 ^ 32\<close> otherwise), \<^verbatim>\<open>reserve\<close>
  returns and the first \<open>6 * g\<close> cells of the index buffer hold exactly the index
  pattern, every entry of which is below \<open>4 * g\<close>: every prefilled index references a
  vertex of a full-capacity render.
\<close>

theorem createIndices_in_vertex_range:
  assumes "0 < unat count" "4 * unat count < 2 ^ 32"
  shows "(\<forall>s \<in> set (createIndices count :: (nat \<times> GLubyte) list).
            unat (snd s) \<le> 4 * unat count - 1 \<and> unat (snd s) < 4 * unat count)
       \<and> (\<forall>s \<in> set (createIndices count :: (nat \<times> GLushort) list).
            unat (snd s) \<le> 4 * unat count - 1 \<and> unat (snd s) < 4 * unat count)
       \<and> (\<forall>s \<in> set (createIndices count :: (nat \<times> GLuint) list).
            unat (snd s) \<le> 4 * unat count - 1 \<and> unat (snd s) < 4 * unat count)
       \<and> (count * 4 < 255 \<longrightarrow>
            map (unat \<circ> snd) (createIndices count :: (nat \<times> GLubyte) list)
              = indexPattern (unat count))
       \<and> (count * 4 < 65535 \<longrightarrow>
            map (unat \<circ> snd) (createIndices count :: (nat \<times> GLushort) list)
              = indexPattern (unat count))
       \<and> map (unat \<circ> snd) (createIndices count :: (nat \<times> GLuint) list)
              = indexPattern (unat count)
       \<and> (\<forall>v \<in> set (indexPattern (unat count)). v \<le> 4 * unat count - 1 \<and> v < 4 * unat count)
       \<and> (6 * unat count < 2 ^ 32
            \<and> (count * 4 < 255 \<longrightarrow> unat count \<le> 43)
            \<and> (count * 4 < 65535 \<longrightarrow> unat count \<le> 10923) \<longrightarrow>
            (\<exists>r'. reserve count r = Some r'
               \<and> take (6 * unat count) (indexValues (indexBuffer r'))
                   = map Some (indexPattern (unat count))))"
proof -
  have four: "unat (count * 4) = 4 * unat count"
    using assms(2) by (rule unat_times_4)
  have byte: "map (unat \<circ> snd) (createIndices count :: (nat \<times> GLubyte) list)
                = indexPattern (unat count)" if "count * 4 < 255"
  proof -
    from that four have "4 * unat count \<le> 2 ^ LENGTH(8)"
      by (simp add: word_less_nat_alt)
    then show ?thesis by (intro createIndices_exact) simp_all
  qed
  have short: "map (unat \<circ> snd) (createIndices count :: (nat \<times> GLushort) list)
                = indexPattern (unat count)" if "count * 4 < 65535"
  proof -
    from that four have "4 * unat count \<le> 2 ^ LENGTH(16)"
      by (simp add: word_less_nat_alt)
    then show ?thesis by (intro createIndices_exact) simp_all
  qed
  have int: "map (unat \<circ> snd) (createIndices count :: (nat \<times> GLuint) list)
                = indexPattern (unat count)"
    using assms(2) by (intro createIndices_exact) simp_all
  have bounds: "(\<forall>s \<in> set (createIndices count :: (nat \<times> GLubyte) list).
            unat (snd s) \<le> 4 * unat count - 1 \<and> unat (snd s) < 4 * unat count)
       \<and> (\<forall>s \<in> set (createIndices count :: (nat \<times> GLushort) list).
            unat (snd s) \<le> 4 * unat count - 1 \<and> unat (snd s) < 4 * unat count)
       \<and> (\<forall>s \<in> set (createIndices count :: (nat \<times> GLuint) list).
            unat (snd s) \<le> 4 * unat count - 1 \<and> unat (snd s) < 4 * unat count)"
    using createIndices_value_bound [where 'w = 8, of _ count]
      createIndices_value_bound [where 'w = 16, of _ count]
      createIndices_value_bound [where 'w = 32, of _ count]
    by simp
  have pattern: "\<forall>v \<in> set (indexPattern (unat count)).
                   v \<le> 4 * unat count - 1 \<and> v < 4 * unat count"
    using indexPattern_bound by blast
  have buffer: "6 * unat count < 2 ^ 32
            \<and> (count * 4 < 255 \<longrightarrow> unat count \<le> 43)
            \<and> (count * 4 < 65535 \<longrightarrow> unat count \<le> 10923) \<longrightarrow>
            (\<exists>r'. reserve count r = Some r'
               \<and> take (6 * unat count) (indexValues (indexBuffer r'))
                   = map Some (indexPattern (unat count)))"
    using reserve_prefilled [of count r] by blast
  from bounds byte short int pattern buffer show ?thesis by blast
qed

theorem createIndices_in_vertex_range_witness:
  "0 < unat (2 :: u32) \<and> 4 * unat (2 :: u32) < 2 ^ 32 \<and> (2 :: u32) * 4 < 255
   \<and> 6 * unat (2 :: u32) < 2 ^ 32 \<and> unat (2 :: u32) \<le> 43
   \<and> map (unat \<circ> snd) (createIndices 2 :: (nat \<times> GLubyte) list)
       = [0, 1, 2, 1, 3, 2, 4, 5, 6, 5, 7, 6]
   \<and> map (unat \<circ> snd) (createIndices 2 :: (nat \<times> GLushort) list)
       = [0, 1, 2, 1, 3, 2, 4, 5, 6, 5, 7, 6]
   \<and> map (unat \<circ> snd) (createIndices 2 :: (nat \<times> GLuint) list)
       = [0, 1, 2, 1, 3, 2, 4, 5, 6, 5, 7, 6]
   \<and> list_all (\<lambda>s. unat (snd s) \<le> 4 * unat (2 :: u32) - 1)
        (createIndices 2 :: (nat \<times> GLubyte) list)
   \<and> list_all (\<lambda>v. v < 4 * unat (2 :: u32)) (indexPattern (unat (2 :: u32)))
   \<and> (\<exists>r'. reserve 2 (newTextRenderer stubFont 1) = Some r'
         \<and> take 12 (indexValues (indexBuffer r'))
             = map Some [0, 1, 2, 1, 3, 2, 4, 5, 6, 5, 7, 6])"
proof -
  have p: "indexPattern 2 = [0, 1, 2, 1, 3, 2, 4, 5, 6, 5, 7, 6]"
    by (simp add: indexPattern_def quadPattern_def upt_rec [of 0] upt_rec [of 1] upt_rec [of "Suc 0"] upt_rec [of 2])
  have h: "0 < unat (2 :: u32)" "4 * unat (2 :: u32) < 2 ^ 32" "(2 :: u32) * 4 < 255"
    "6 * unat (2 :: u32) < 2 ^ 32" "unat (2 :: u32) \<le> 43" "(2 :: u32) * 4 < 65535"
    by simp_all
  from createIndices_in_vertex_range [OF h(1) h(2), of "newTextRenderer stubFont 1"] h
  show ?thesis
    by (simp add: p list_all_iff)
qed

section \<open>The index type\<close>

lemma render_mesh_result:
  assumes "render_mesh d font textSize text = Some (vb, ib, m, rect)"
    and "g = glyphCount (newTextLayouter font textSize text)"
  shows "elementWidth ib = indexWidth (fst (selectIndexType (g * 4) (g * 6)))
    \<and> IndexData_size ib = snd (selectIndexType (g * 4) (g * 6))
    \<and> indexBufferSetup m = Some (0, fst (selectIndexType (g * 4) (g * 6)), 0, g * 4)
    \<and> indexCount m = g * 6 \<and> primitive m = Triangles"
  using assms
  by (auto simp add: render_mesh_def Let_def split_beta fillIndices_width fillIndices_size
      split: option.splits)

lemma render_mesh_returns:
  assumes "6 * unat (glyphCount (newTextLayouter font textSize text)) < 2 ^ 32"
  shows "\<exists>vb ib m rect. render_mesh d font textSize text = Some (vb, ib, m, rect)"
proof -
  let ?g = "glyphCount (newTextLayouter font textSize text)"
  have "6 * unat ?g \<le> unat (?g * 6)" using unat_times_6 [OF assms] by simp
  from fillIndices_returns [OF this, of "?g * 4"] show ?thesis
    by (auto simp add: render_mesh_def Let_def split_beta)
qed

lemma selected_width:
  assumes "0 < N" "unat v = 4 * N"
  shows "4 * N - 1 < 2 ^ indexWidth (fst (selectIndexType v n))
    \<and> (4 * N \<noteq> 256 \<and> 4 * N \<noteq> 65536 \<longrightarrow>
         indexWidth (fst (selectIndexType v n)) = narrowestWidth (4 * N - 1))"
proof -
  have "unat v < 2 ^ 32" using unsigned_less [of v] by simp
  then have "4 * N < 2 ^ 32" using assms(2) by simp
  then show ?thesis
    using assms
    by (auto simp add: selectIndexType_def indexWidth_def narrowestWidth_def word_less_nat_alt)
qed

text \<open>
  C3. The selection rule shared by the mesh-building \<^verbatim>\<open>render\<close> and \<^verbatim>\<open>reserve\<close> maps
  the vertex counts 254, 255, 65534 and 65535 to \<^verbatim>\<open>UnsignedByte\<close>, \<^verbatim>\<open>UnsignedShort\<close>,
  \<^verbatim>\<open>UnsignedShort\<close> and \<^verbatim>\<open>UnsignedInt\<close>: a vertex count below 255 selects 8-bit
  indices with index data of \<open>indexCount * sizeof(GLushort)\<close> bytes, a vertex count from
  255 and below 65535 selects 16-bit indices with the same size, and any larger vertex
  count selects 32-bit indices with \<open>indexCount * sizeof(GLuint)\<close> bytes. Both functions
  configure the mesh with the selected type and leave index data of the selected element
  width and size.
\<close>

theorem index_type_thresholds:
  "fst (selectIndexType 254 n) = UnsignedByte
   \<and> fst (selectIndexType 255 n) = UnsignedShort
   \<and> fst (selectIndexType 65534 n) = UnsignedShort
   \<and> fst (selectIndexType 65535 n) = UnsignedInt
   \<and> (v < 255 \<longrightarrow> selectIndexType v n = (UnsignedByte, unat n * sizeof_GLushort))
   \<and> (255 \<le> v \<and> v < 65535 \<longrightarrow>
        selectIndexType v n = (UnsignedShort, unat n * sizeof_GLushort))
   \<and> (65535 \<le> v \<longrightarrow> selectIndexType v n = (UnsignedInt, unat n * sizeof_GLuint))
   \<and> (reserve count r = Some r' \<longrightarrow>
        indexBufferSetup (mesh r')
          = Some (0, fst (selectIndexType (count * 4) (count * 6)), 0, count * 4)
        \<and> elementWidth (indexBuffer r')
          = indexWidth (fst (selectIndexType (count * 4) (count * 6)))
        \<and> IndexData_size (indexBuffer r') = snd (selectIndexType (count * 4) (count * 6)))
   \<and> (glyphCount (newTextLayouter font textSize text) = g
        \<and> render_mesh d font textSize text = Some (vb, ib, m, rect) \<longrightarrow>
        indexBufferSetup m = Some (0, fst (selectIndexType (g * 4) (g * 6)), 0, g * 4)
        \<and> elementWidth ib = indexWidth (fst (selectIndexType (g * 4) (g * 6)))
        \<and> IndexData_size ib = snd (selectIndexType (g * 4) (g * 6)))"
proof -
  have rule: "fst (selectIndexType 254 n) = UnsignedByte
   \<and> fst (selectIndexType 255 n) = UnsignedShort
   \<and> fst (selectIndexType 65534 n) = UnsignedShort
   \<and> fst (selectIndexType 65535 n) = UnsignedInt
   \<and> (v < 255 \<longrightarrow> selectIndexType v n = (UnsignedByte, unat n * sizeof_GLushort))
   \<and> (255 \<le> v \<and> v < 65535 \<longrightarrow>
        selectIndexType v n = (UnsignedShort, unat n * sizeof_GLushort))
   \<and> (65535 \<le> v \<longrightarrow> selectIndexType v n = (UnsignedInt, unat n * sizeof_GLuint))"
    by (auto simp add: selectIndexType_def word_le_nat_alt word_less_nat_alt)
  have res: "reserve count r = Some r' \<longrightarrow>
        indexBufferSetup (mesh r')
          = Some (0, fst (selectIndexType (count * 4) (count * 6)), 0, count * 4)
        \<and> elementWidth (indexBuffer r')
          = indexWidth (fst (selectIndexType (count * 4) (count * 6)))
        \<and> IndexData_size (indexBuffer r') = snd (selectIndexType (count * 4) (count * 6))"
    using reserve_result [of count r r'] by simp
  have mesh: "glyphCount (newTextLayouter font textSize text) = g
        \<and> render_mesh d font textSize text = Some (vb, ib, m, rect) \<longrightarrow>
        indexBufferSetup m = Some (0, fst (selectIndexType (g * 4) (g * 6)), 0, g * 4)
        \<and> elementWidth ib = indexWidth (fst (selectIndexType (g * 4) (g * 6)))
        \<and> IndexData_size ib = snd (selectIndexType (g * 4) (g * 6))"
    using render_mesh_result [of d font textSize "text" vb ib m rect g] by simp
  from rule res mesh show ?thesis by simp
qed

theorem index_type_thresholds_witness:
  "(100 :: u32) < 255 \<and> selectIndexType 100 150 = (UnsignedByte, 300)
   \<and> (255 :: u32) \<le> 1000 \<and> (1000 :: u32) < 65535
   \<and> selectIndexType 1000 1500 = (UnsignedShort, 3000)
   \<and> (65535 :: u32) \<le> 100000 \<and> selectIndexType 100000 150000 = (UnsignedInt, 600000)
   \<and> (\<exists>r'. reserve 1 (newTextRenderer stubFont 1) = Some r'
         \<and> indexBufferSetup (mesh r') = Some (0, UnsignedByte, 0, 4)
         \<and> elementWidth (indexBuffer r') = 8 \<and> IndexData_size (indexBuffer r') = 12)
   \<and> (\<exists>vb ib m rect. render_mesh Two stubFont 1 ''A'' = Some (vb, ib, m, rect)
         \<and> indexBufferSetup m = Some (0, UnsignedByte, 0, 4)
         \<and> elementWidth ib = 8 \<and> IndexData_size ib = 12)"
proof -
  obtain r' where r': "reserve 1 (newTextRenderer stubFont 1) = Some r'"
    using reserve_returns [of 1 "newTextRenderer stubFont 1"] by auto
  have g: "glyphCount (newTextLayouter stubFont 1 ''A'') = 1"
    by (simp add: stub_glyphCount)
  obtain vb ib m rect where rm: "render_mesh Two stubFont 1 ''A'' = Some (vb, ib, m, rect)"
    using render_mesh_returns [of stubFont 1 "''A''" Two] g by auto
  have sel: "selectIndexType (1 * 4) (1 * 6) = (UnsignedByte, 12)"
    by (simp add: selectIndexType_def sizeof_GLushort_def)
  from index_type_thresholds [of 150 100 1 "newTextRenderer stubFont 1" r' stubFont 1 "''A''" 1
      Two vb ib m rect]
    index_type_thresholds [of 1500 1000]
    index_type_thresholds [of 150000 100000]
    r' rm g sel
  show ?thesis
    by (simp add: sizeof_GLushort_def sizeof_GLuint_def indexWidth_def)
qed

text \<open>
  C2. For every glyph count \<open>g > 0\<close> with \<open>4 * g\<close> below \<open>2 ^ 32\<close>, the elements of the
  index data that \<^verbatim>\<open>reserve\<close> and the mesh-building \<^verbatim>\<open>render\<close> produce have a width
  that represents \<open>vertexCount - 1 = 4 * g - 1\<close>; it is the narrowest of 8, 16 and 32
  bits that does so unless the vertex count is 256 or 65536.
\<close>

theorem index_width_sufficient:
  assumes "0 < unat count" "4 * unat count < 2 ^ 32"
  shows "(reserve count r = Some r' \<longrightarrow>
            4 * unat count - 1 < 2 ^ elementWidth (indexBuffer r')
          \<and> (4 * unat count \<noteq> 256 \<and> 4 * unat count \<noteq> 65536 \<longrightarrow>
               elementWidth (indexBuffer r') = narrowestWidth (4 * unat count - 1)))
       \<and> (glyphCount (newTextLayouter font textSize text) = count
          \<and> render_mesh d font textSize text = Some (vb, ib, m, rect) \<longrightarrow>
            4 * unat count - 1 < 2 ^ elementWidth ib
          \<and> (4 * unat count \<noteq> 256 \<and> 4 * unat count \<noteq> 65536 \<longrightarrow>
               elementWidth ib = narrowestWidth (4 * unat count - 1)))"
proof -
  have four: "unat (count * 4) = 4 * unat count"
    using assms(2) by (rule unat_times_4)
  note w = selected_width [OF assms(1) four, of "count * 6"]
  show ?thesis
  proof (intro conjI impI)
    assume "reserve count r = Some r'"
    from reserve_result [OF this] w
    show "4 * unat count - 1 < 2 ^ elementWidth (indexBuffer r')" by simp
  next
    assume "reserve count r = Some r'" "4 * unat count \<noteq> 256 \<and> 4 * unat count \<noteq> 65536"
    with reserve_result [of count r r'] w
    show "elementWidth (indexBuffer r') = narrowestWidth (4 * unat count - 1)" by simp
  next
    assume a: "glyphCount (newTextLayouter font textSize text) = count
      \<and> render_mesh d font textSize text = Some (vb, ib, m, rect)"
    with render_mesh_result [of d font textSize "text" vb ib m rect count] w
    show "4 * unat count - 1 < 2 ^ elementWidth ib" by simp
  next
    assume a: "glyphCount (newTextLayouter font textSize text) = count
      \<and> render_mesh d font textSize text = Some (vb, ib, m, rect)"
      "4 * unat count \<noteq> 256 \<and> 4 * unat count \<noteq> 65536"
    with render_mesh_result [of d font textSize "text" vb ib m rect count] w
    show "elementWidth ib = narrowestWidth (4 * unat count - 1)" by simp
  qed
qed

theorem index_width_sufficient_witness:
  "0 < unat (1 :: u32) \<and> 4 * unat (1 :: u32) < 2 ^ 32
   \<and> glyphCount (newTextLayouter stubFont 1 ''A'') = 1
   \<and> (\<exists>r'. reserve 1 (newTextRenderer stubFont 1) = Some r'
         \<and> 4 * unat (1 :: u32) - 1 < 2 ^ elementWidth (indexBuffer r')
         \<and> elementWidth (indexBuffer r') = 8)
   \<and> (\<exists>vb ib m rect. render_mesh Two stubFont 1 ''A'' = Some (vb, ib, m, rect)
         \<and> 4 * unat (1 :: u32) - 1 < 2 ^ elementWidth ib \<and> elementWidth ib = 8)
   \<and> narrowestWidth (4 * unat (1 :: u32) - 1) = 8"
proof -
  have h: "0 < unat (1 :: u32)" "4 * unat (1 :: u32) < 2 ^ 32" by simp_all
  have g: "glyphCount (newTextLayouter stubFont 1 ''A'') = 1"
    by (simp add: stub_glyphCount)
  obtain r' where r': "reserve 1 (newTextRenderer stubFont 1) = Some r'"
    using reserve_returns [of 1 "newTextRenderer stubFont 1"] by auto
  obtain vb ib m rect where rm: "render_mesh Two stubFont 1 ''A'' = Some (vb, ib, m, rect)"
    using render_mesh_returns [of stubFont 1 "''A''" Two] g by auto
  have n: "narrowestWidth (4 * unat (1 :: u32) - 1) = 8"
    by (simp add: narrowestWidth_def)
  from index_width_sufficient [OF h, of "newTextRenderer stubFont 1" r' stubFont 1 "''A''"
      Two vb ib m rect] r' rm g n
  have "4 * unat (1 :: u32) - 1 < 2 ^ elementWidth (indexBuffer r')"
    "elementWidth (indexBuffer r') = 8"
    "4 * unat (1 :: u32) - 1 < 2 ^ elementWidth ib" "elementWidth ib = 8"
    by simp_all
  with h g r' rm n show ?thesis by blast
qed

text \<open>
  At 64 glyphs the vertex count is 256: the largest index, 255, fits eight bits, and
  \<^verbatim>\<open>reserve\<close> stores 16-bit elements. The rule itself selects 16 bits already at the
  vertex count 255, whose largest index is 254.
\<close>

theorem index_width_not_narrowest:
  "map_option (\<lambda>r'. elementWidth (indexBuffer r')) (reserve 64 (newTextRenderer stubFont 1))
     = Some 16
   \<and> unat ((64 :: u32) * 4 - 1) = 255 \<and> narrowestWidth 255 = 8
   \<and> indexWidth (fst (selectIndexType 255 0)) = 16 \<and> narrowestWidth (255 - 1) = 8"
proof -
  obtain r' where r': "reserve 64 (newTextRenderer stubFont 1) = Some r'"
    using reserve_returns [of 64 "newTextRenderer stubFont 1"] by auto
  from reserve_result [OF r'] have "elementWidth (indexBuffer r') = 16"
    by (simp add: selectIndexType_def indexWidth_def)
  with r' show ?thesis
    by (simp add: narrowestWidth_def selectIndexType_def indexWidth_def)
qed

section \<open>The member render\<close>

text \<open>
  C4. When the text shapes to more glyphs than the capacity, \<^verbatim>\<open>render\<close> fails the
  capacity check and the renderer is exactly as before the call: vertex buffer, index
  buffer, mesh, rectangle and capacity. A later call for a text within the capacity
  passes the check.
\<close>

theorem render_capacity_exceeded:
  assumes "capacity r < glyphCount (newTextLayouter (renderer_font r) (renderer_size r) text)"
  shows "render d text r = AssertionFailed r
    \<and> (\<forall>text'. glyphCount (newTextLayouter (renderer_font r) (renderer_size r) text')
                  \<le> capacity r \<longrightarrow>
          (\<forall>s. render d text' r \<noteq> AssertionFailed s))"
  using assms
  by (auto simp add: render_def Let_def split: option.splits)

theorem render_capacity_exceeded_witness:
  "\<exists>r r'. reserve 1 (newTextRenderer stubFont 1) = Some r
     \<and> capacity r < glyphCount (newTextLayouter (renderer_font r) (renderer_size r) ''AB'')
     \<and> render Two ''AB'' r = AssertionFailed r
     \<and> glyphCount (newTextLayouter (renderer_font r) (renderer_size r) ''A'') \<le> capacity r
     \<and> render Two ''A'' r = Returned r'"
proof -
  obtain r where r: "reserve 1 (newTextRenderer stubFont 1) = Some r"
    using reserve_returns [of 1 "newTextRenderer stubFont 1"] by auto
  from reserve_result [OF r]
  have f: "capacity r = 1" "renderer_font r = stubFont" "length (vertexBuffer r) = 4"
    by (simp_all add: newTextRenderer_def)
  have over: "capacity r < glyphCount (newTextLayouter (renderer_font r) (renderer_size r) ''AB'')"
    by (simp add: f stub_glyphCount)
  have within: "glyphCount (newTextLayouter (renderer_font r) (renderer_size r) ''A'') \<le> capacity r"
    by (simp add: f stub_glyphCount)
  obtain r' where "render Two ''A'' r = Returned r'"
    using render_returns [OF within, of Two] f by auto
  with render_capacity_exceeded [OF over, of Two] r over within show ?thesis by blast
qed

lemma render_assertion_failed:
  assumes "render d text r = AssertionFailed s"
  shows "\<not> glyphCount (newTextLayouter (renderer_font r) (renderer_size r) text) \<le> capacity r"
proof
  assume "glyphCount (newTextLayouter (renderer_font r) (renderer_size r) text) \<le> capacity r"
  then have "render d text r \<noteq> AssertionFailed s"
    by (simp add: render_def Let_def split: option.splits)
  with assms show False by simp
qed

text \<open>
  C5. After \<^verbatim>\<open>reserve\<close>, \<^verbatim>\<open>render\<close> of a text that shapes to no glyph returns, sets
  the index count of the mesh to 0 and leaves the contents of the index buffer as
  \<^verbatim>\<open>reserve\<close> prefilled them. No call of \<^verbatim>\<open>render\<close> within the capacity changes the
  contents of the index buffer: when it returns, the index buffer is the same and the
  mesh differs in its index count alone, which is six times the glyph count. With a
  capacity reserved below \<open>2 ^ 30\<close> glyphs every call within the capacity returns.
\<close>

theorem render_keeps_index_buffer:
  "(reserve n r0 = Some r
      \<and> glyphCount (newTextLayouter (renderer_font r) (renderer_size r) text) = 0 \<longrightarrow>
      (\<exists>r'. render d text r = Returned r' \<and> indexCount (mesh r') = 0
         \<and> indexBuffer r' = indexBuffer r))
   \<and> (glyphCount (newTextLayouter (renderer_font r) (renderer_size r) text) \<le> capacity r \<longrightarrow>
      (case render d text r of
         Returned r' \<Rightarrow>
           indexBuffer r' = indexBuffer r
           \<and> mesh r' = (mesh r)\<lparr>indexCount :=
                glyphCount (newTextLayouter (renderer_font r) (renderer_size r) text) * 6\<rparr>
       | AssertionFailed s \<Rightarrow> False
       | MemoryFault \<Rightarrow> True))
   \<and> (reserve n r0 = Some r \<and> 4 * unat n < 2 ^ 32
      \<and> glyphCount (newTextLayouter (renderer_font r) (renderer_size r) text) \<le> capacity r \<longrightarrow>
      (\<exists>r'. render d text r = Returned r'))"
proof (intro conjI impI)
  assume "reserve n r0 = Some r
      \<and> glyphCount (newTextLayouter (renderer_font r) (renderer_size r) text) = 0"
  then show "\<exists>r'. render d text r = Returned r' \<and> indexCount (mesh r') = 0
         \<and> indexBuffer r' = indexBuffer r"
    by (simp add: render_no_glyphs)
next
  assume within: "glyphCount (newTextLayouter (renderer_font r) (renderer_size r) text) \<le> capacity r"
  show "case render d text r of
         Returned r' \<Rightarrow>
           indexBuffer r' = indexBuffer r
           \<and> mesh r' = (mesh r)\<lparr>indexCount :=
                glyphCount (newTextLayouter (renderer_font r) (renderer_size r) text) * 6\<rparr>
       | AssertionFailed s \<Rightarrow> False
       | MemoryFault \<Rightarrow> True"
  proof (cases "render d text r")
    case (Returned r')
    from render_frame [OF Returned] show ?thesis by (simp only: Returned outcome.case)
  next
    case (AssertionFailed s)
    from render_assertion_failed [OF AssertionFailed] within show ?thesis by simp
  next
    case MemoryFault
    then show ?thesis by simp
  qed
next
  assume a: "reserve n r0 = Some r \<and> 4 * unat n < 2 ^ 32
      \<and> glyphCount (newTextLayouter (renderer_font r) (renderer_size r) text) \<le> capacity r"
  with reserve_result [of n r0 r]
  have "capacity r = n" "length (vertexBuffer r) = 4 * unat n"
    by (simp_all add: unat_times_4)
  with a show "\<exists>r'. render d text r = Returned r'"
    by (intro render_returns) simp_all
qed

theorem render_keeps_index_buffer_witness:
  "\<exists>r r'. reserve 100 (newTextRenderer stubFont 1) = Some r
     \<and> glyphCount (newTextLayouter (renderer_font r) (renderer_size r) []) = 0
     \<and> glyphCount (newTextLayouter (renderer_font r) (renderer_size r) []) \<le> capacity r
     \<and> 4 * unat (100 :: u32) < 2 ^ 32
     \<and> render Two [] r = Returned r' \<and> indexCount (mesh r') = 0
     \<and> indexBuffer r' = indexBuffer r \<and> elementWidth (indexBuffer r) = 16"
proof -
  obtain r where r: "reserve 100 (newTextRenderer stubFont 1) = Some r"
    using reserve_returns [of 100 "newTextRenderer stubFont 1"] by auto
  from reserve_result [OF r]
  have f: "renderer_font r = stubFont" "elementWidth (indexBuffer r) = 16"
    by (simp_all add: newTextRenderer_def selectIndexType_def indexWidth_def)
  have z: "glyphCount (newTextLayouter (renderer_font r) (renderer_size r) []) = 0"
    by (simp add: f stub_glyphCount)
  have "reserve 100 (newTextRenderer stubFont 1) = Some r
      \<and> glyphCount (newTextLayouter (renderer_font r) (renderer_size r) []) = 0 \<longrightarrow>
      (\<exists>r'. render Two [] r = Returned r' \<and> indexCount (mesh r') = 0
         \<and> indexBuffer r' = indexBuffer r)"
    by (rule render_keeps_index_buffer [of 100 "newTextRenderer stubFont 1" r "[]" Two,
          THEN conjunct1])
  with r z obtain r' where "render Two [] r = Returned r'" "indexCount (mesh r') = 0"
    "indexBuffer r' = indexBuffer r" by blast
  with r z f show ?thesis by (intro exI [of _ r] exI [of _ r']) simp
qed

section \<open>The running rectangle\<close>

lemma render_length:
  assumes "render d text r = Returned r'"
  shows "length (vertexBuffer r') = length (vertexBuffer r)"
proof -
  let ?l = "newTextLayouter (renderer_font r) (renderer_size r) text"
  from assms obtain mapped s where
    m: "Buffer_map (vertexBuffer r) (unat (glyphCount ?l * 4)) = Some mapped"
    and s: "render_loop (render_glyph d ?l) [0..<unat (glyphCount ?l)]
              ((0, 0), rectangle r, mapped) = Some s"
    and r': "vertexBuffer r' = Buffer_unmap (vertexBuffer r) (snd (snd s))"
    by (auto simp add: render_def Let_def split: if_splits option.splits)
  have step: "\<And>i s s'. render_glyph d ?l i s = Some s' \<Longrightarrow>
                length (snd (snd s')) = length (snd (snd s))"
    by (auto simp add: render_glyph_def Let_def split_beta dest: assign_length)
  have loop: "render_loop (render_glyph d ?l) xs s0 = Some s1 \<Longrightarrow>
                length (snd (snd s1)) = length (snd (snd s0))" for xs s0 s1
    by (induction xs arbitrary: s0) (auto split: option.splits dest: step)
  from m have "length mapped \<le> length (vertexBuffer r)"
    by (auto simp add: Buffer_map_def split: if_splits)
  with loop [OF s] r' show ?thesis
    by (simp add: Buffer_unmap_def)
qed

lemma render_loop_append:
  "render_loop body (xs @ ys) s =
     (case render_loop body xs s of None \<Rightarrow> None | Some s' \<Rightarrow> render_loop body ys s')"
  by (induction xs arbitrary: s) (auto split: option.splits)

lemma last_glyph_index:
  assumes "i < unat (g :: u32)"
  shows "word_of_nat i = g - 1 \<longleftrightarrow> i = unat g - 1"
proof -
  have g: "0 < unat g" "unat g < 2 ^ 32" using assms unsigned_less [of g] by auto
  then have "g \<noteq> 0" by (auto simp add: unat_gt_0)
  then have m: "unat (g - 1) = unat g - 1"
    by (simp add: unat_minus_one)
  have i: "unat (word_of_nat i :: u32) = i"
    using assms g by (simp add: unat_of_nat)
  show ?thesis
    by (metis i m word_unat_eq_iff)
qed

text \<open>
  With two glyphs or more, within a capacity reserved below \<open>2 ^ 30\<close> glyphs, the
  rectangle after \<^verbatim>\<open>render\<close> runs from the bottom-left corner of the first glyph's quad
  to the top-right corner of the last glyph's quad.
\<close>

lemma render_glyph_step:
  assumes "k < unat (glyphCount l)" "4 * unat (glyphCount l) < 2 ^ 32"
    "length vs = 4 * unat (glyphCount l)"
  shows "\<exists>vs'. render_glyph d l k (cursorAt l k, rectangleAfter rect l k, vs)
           = Some (cursorAt l (Suc k), rectangleAfter rect l (Suc k), vs')
         \<and> length vs' = 4 * unat (glyphCount l)"
proof -
  obtain q t a where g: "renderGlyph l (cursorAt l k) k = (q, t, a)"
    by (cases "renderGlyph l (cursorAt l k) k") auto
  then have q: "q = glyphQuad l k" and a: "a = glyphAdvance l k"
    using renderGlyph_advance [of l "cursorAt l k" k] by (simp_all add: glyphQuad_def)
  have v: "unat ((word_of_nat k :: u32) * 4) = 4 * k"
  proof -
    have "(4 * k) mod 2 ^ LENGTH(32) = 4 * k" using assms(1,2) by simp
    moreover have "(word_of_nat k :: u32) * 4 = word_of_nat (4 * k)" by simp
    ultimately show ?thesis by (simp only: unat_of_nat)
  qed
  have room: "4 * k + 3 < length vs" using assms(1,3) by simp
  have rect: "(if k = 0 then (rectangleAfter rect l k)\<lparr>bottomLeft := bottomLeft q\<rparr>
               else if word_of_nat k = glyphCount l - 1
               then (rectangleAfter rect l k)\<lparr>topRight := topRight q\<rparr>
               else rectangleAfter rect l k) = rectangleAfter rect l (Suc k)"
    using assms(1) last_glyph_index [OF assms(1)]
    by (auto simp add: rectangleAfter_def q)
  obtain vs' where vs': "assign (written
              [(4 * k, \<lparr>position = point d (topLeft q), texcoords = topLeft t\<rparr>),
               (4 * k + 1, \<lparr>position = point d (bottomLeft q), texcoords = bottomLeft t\<rparr>),
               (4 * k + 2, \<lparr>position = point d (topRight q), texcoords = topRight t\<rparr>),
               (4 * k + 3, \<lparr>position = point d (bottomRight q), texcoords = bottomRight t\<rparr>)])
              vs = Some vs'"
    using room by (simp add: written_def)
  from assign_length [OF vs'] assms(3) have "length vs' = 4 * unat (glyphCount l)" by simp
  with vs' show ?thesis
    by (simp add: render_glyph_def g v rect a cursorAt_Suc)
qed

lemma render_loop_rectangle:
  assumes "4 * unat (glyphCount l) < 2 ^ 32" "length vs = 4 * unat (glyphCount l)"
  shows "k \<le> unat (glyphCount l) \<Longrightarrow>
    \<exists>vs'. render_loop (render_glyph d l) [0..<k] ((0, 0), rect, vs)
             = Some (cursorAt l k, rectangleAfter rect l k, vs')
          \<and> length vs' = 4 * unat (glyphCount l)"
proof (induction k)
  case 0
  then show ?case using assms(2) by (simp add: cursorAt_def rectangleAfter_def)
next
  case (Suc k)
  then obtain vs1 where one: "render_loop (render_glyph d l) [0..<k] ((0, 0), rect, vs)
             = Some (cursorAt l k, rectangleAfter rect l k, vs1)"
      "length vs1 = 4 * unat (glyphCount l)" by auto
  from Suc.prems have "k < unat (glyphCount l)" by simp
  from render_glyph_step [OF this assms(1) one(2), of d rect] one(1)
  show ?case by (auto simp add: render_loop_append)
qed

lemma render_two_or_more:
  assumes l: "l = newTextLayouter (renderer_font r) (renderer_size r) text"
    and many: "2 \<le> unat (glyphCount l)"
    and cap: "glyphCount l \<le> capacity r"
    and len: "length (vertexBuffer r) = 4 * unat (capacity r)"
    and small: "4 * unat (capacity r) < 2 ^ 32"
  shows "\<exists>r'. render d text r = Returned r'
    \<and> rectangle r' = \<lparr>bottomLeft = bottomLeft (glyphQuad l 0),
                        topRight = topRight (glyphQuad l (unat (glyphCount l) - 1))\<rparr>"
proof -
  let ?n = "unat (glyphCount l)"
  have n: "?n \<le> unat (capacity r)" using cap by (simp add: word_le_nat_alt)
  then have small': "4 * ?n < 2 ^ 32" using small by arith
  have four: "unat (glyphCount l * 4) = 4 * ?n"
    using small' by (rule unat_times_4)
  obtain vs' where loop: "render_loop (render_glyph d l) [0..<?n]
        ((0, 0), rectangle r, replicate (4 * ?n) None)
      = Some (cursorAt l ?n, rectangleAfter (rectangle r) l ?n, vs')"
    using render_loop_rectangle [OF small', of "replicate (4 * ?n) None" ?n d "rectangle r"]
    by auto
  have "rectangleAfter (rectangle r) l ?n
      = \<lparr>bottomLeft = bottomLeft (glyphQuad l 0), topRight = topRight (glyphQuad l (?n - 1))\<rparr>"
    using many by (simp add: rectangleAfter_def)
  moreover have "4 * ?n \<le> length (vertexBuffer r)" using n len by simp
  ultimately show ?thesis
    using cap loop by (simp add: render_def Let_def Buffer_map_def four flip: l)
qed

text \<open>
  C1. For a text that shapes to exactly one glyph, within the capacity, \<^verbatim>\<open>render\<close>
  sets the bottom-left corner of the running rectangle to the bottom-left corner of the
  glyph's quad and leaves the top-right corner as it was before the call; it is not set
  to the top-right corner of the glyph's quad. For the glyph 0 the loop takes the first
  branch of the \<^verbatim>\<open>if\<close> (line 313) and never reaches the \<^verbatim>\<open>else if\<close> (line 315) that
  sets the top-right corner.
\<close>

theorem render_single_glyph:
  assumes one: "glyphCount (newTextLayouter (renderer_font r) (renderer_size r) text) = 1"
    and cap: "1 \<le> capacity r"
    and len: "4 \<le> length (vertexBuffer r)"
  shows "\<exists>r'. render d text r = Returned r'
    \<and> bottomLeft (rectangle r') = bottomLeft
          (fst (renderGlyph (newTextLayouter (renderer_font r) (renderer_size r) text) (0, 0) 0))
    \<and> topRight (rectangle r') = topRight (rectangle r)"
  using cap len
  by (simp add: render_def Let_def one Buffer_map_def render_glyph_def split_beta written_def)

text \<open>
  One glyph after two: with a capacity of two glyphs, \<^verbatim>\<open>render("AB")\<close> leaves the
  rectangle from \<open>(0, 0)\<close> to \<open>(2, 1)\<close>. A following \<^verbatim>\<open>render("A")\<close> lays its only
  glyph out on the quad from \<open>(0, 0)\<close> to \<open>(1, 1)\<close>, and the rectangle still ends at
  \<open>(2, 1)\<close>.
\<close>

theorem render_single_glyph_keeps_old_corner:
  "\<exists>r r1 r2. reserve 2 (newTextRenderer stubFont 1) = Some r
     \<and> render Two ''AB'' r = Returned r1
     \<and> rectangle r1 = \<lparr>bottomLeft = (0, 0), topRight = (2, 1)\<rparr>
     \<and> render Two ''A'' r1 = Returned r2
     \<and> rectangle r2 = \<lparr>bottomLeft = (0, 0), topRight = (2, 1)\<rparr>
     \<and> fst (renderGlyph (newTextLayouter stubFont 1 ''A'') (0, 0) 0)
         = \<lparr>bottomLeft = (0, 0), topRight = (1, 1)\<rparr>"
proof -
  obtain r where r: "reserve 2 (newTextRenderer stubFont 1) = Some r"
    using reserve_returns [of 2 "newTextRenderer stubFont 1"] by auto
  from reserve_result [OF r]
  have f: "capacity r = 2" "renderer_font r = stubFont" "renderer_size r = 1"
    "vertexBuffer r = replicate 8 None" "rectangle r = Rectangle_default"
    by (simp_all add: newTextRenderer_def)
  have two: "[0..<2] = [0, Suc 0]"
    by (simp add: numeral_2_eq_2)
  have "\<exists>r1. render Two ''AB'' r = Returned r1
          \<and> rectangle r1 = \<lparr>bottomLeft = (0, 0), topRight = (2, 1)\<rparr>"
    by (simp add: render_def Let_def f stub_glyphCount Buffer_map_def two render_glyph_def
        stub_renderGlyph written_def Rectangle_default_def Vector2_add_def split_beta)
  then obtain r1 where r1: "render Two ''AB'' r = Returned r1"
    "rectangle r1 = \<lparr>bottomLeft = (0, 0), topRight = (2, 1)\<rparr>" by blast
  from render_frame [OF r1(1)] render_length [OF r1(1)]
  have f1: "capacity r1 = 2" "renderer_font r1 = stubFont" "renderer_size r1 = 1"
    "length (vertexBuffer r1) = 8"
    by (simp_all add: f)
  have one: "glyphCount (newTextLayouter (renderer_font r1) (renderer_size r1) ''A'') = 1"
    by (simp add: f1 stub_glyphCount)
  from render_single_glyph [OF one, of Two] f1
  obtain r2 where r2: "render Two ''A'' r1 = Returned r2"
    "topRight (rectangle r2) = topRight (rectangle r1)"
    "bottomLeft (rectangle r2) = bottomLeft (fst (renderGlyph
        (newTextLayouter (renderer_font r1) (renderer_size r1) ''A'') (0, 0) 0))"
    by auto
  have q: "fst (renderGlyph (newTextLayouter stubFont 1 ''A'') (0, 0) 0)
         = \<lparr>bottomLeft = (0, 0), topRight = (1, 1)\<rparr>"
    by (simp add: stub_renderGlyph)
  from r2 r1(2) q f1 have "rectangle r2 = \<lparr>bottomLeft = (0, 0), topRight = (2, 1)\<rparr>"
    by (cases "rectangle r2") simp
  with r r1 r2(1) q show ?thesis by blast
qed

end
